theory Spec2Isabelle
  imports Main
begin

section \<open>The extension's entry point (src/extension.ts)\<close>

text \<open>
  The file wires the extension into its host: it creates an output channel, registers
  commands, file-system watchers, a task provider, a tree view and a hover provider, and
  subscribes callbacks that invalidate two caches. Every call into the host or into a
  module of the repository that is not part of the entry point is recorded in a trace and
  may throw; the callbacks the source passes to the host are kept as data, so that the
  host's later events can be replayed on the model.
\<close>

subsection \<open>Values\<close>

datatype error = Thrown string

record document =
  languageId :: string
  uriScheme :: string
  fsPath :: string

text \<open>The \<open>DocumentSelector\<close> object literal of \<open>registerHoverProvider\<close>.\<close>

record selector =
  language :: string
  scheme :: string
  pattern :: string

text \<open>
  The settings the entry point reads: \<open>showOutput\<close> through the extension's configuration
  accessor, \<open>proxy\<close> and \<open>proxyStrictSSL\<close> from the \<open>http\<close> section, and the exclusion globs
  named by the key \<open>taskView.exclude\<close>. \<open>None\<close> is a setting that has no value.
\<close>

record settings =
  showOutput :: "bool option"
  exclude :: "string list"
  proxy :: "string option"
  proxyStrictSSL :: "bool option"

text \<open>
  The closures the source hands to the host, as data: line 45 (\<open>ShowOutput\<close>), line 60
  (\<open>ConfigurationChanged\<close>), line 71 (\<open>TextDocumentChanged\<close>), lines 100 to 117
  (\<open>InvalidateScriptCaches\<close>) and the imported \<open>runSelectedScript\<close>.
\<close>

datatype callback =
    ShowOutput
  | ConfigurationChanged
  | TextDocumentChanged
  | InvalidateScriptCaches
  | RunSelectedScript

record watcher =
  globPattern :: string
  onDidChange :: "callback list"
  onDidDelete :: "callback list"
  onDidCreate :: "callback list"

datatype TaskTreeDataProvider = TaskTreeDataProvider
datatype NpmScriptHoverProvider = NpmScriptHoverProvider

datatype disposable =
    DisposeAll
  | OutputChannel string
  | Command string
  | Watcher nat
  | Listener callback
  | TaskProvider string
  | TreeView string
  | HoverProvider selector
  | JSONProviders

text \<open>Every call that leaves the entry point, with the arguments the source passes.\<close>

datatype call =
    CreateOutputChannel string
  | RegisterCommand string
  | ConfigurationGet string
  | Show
  | CreateFileSystemWatcher string
  | OnDidChange nat
  | OnDidDelete nat
  | OnDidCreate nat
  | OnDidChangeWorkspaceFolders
  | NewAntTaskProvider
  | RegisterTaskProvider string
  | NewTaskTreeDataProvider
  | CreateTreeView string
  | NewNpmScriptHoverProvider
  | RegisterHoverProvider selector
  | GetConfiguration string
  | SettingGet string
  | HttpRequestConfigure string bool
  | AffectsConfiguration string
  | OnDidChangeConfiguration
  | OnDidChangeTextDocument
  | AddJSONProviders
  | Log string
  | InvalidateHoverScriptsCache "document option"
  | InvalidateTasksCache
  | Refresh
  | RunScript
  | ConsoleError error

subsection \<open>Tasks\<close>

text \<open>
  Modelled from the spec: the tasks that \<open>tasks.ts\<close> and \<open>scriptHover.ts\<close>, both missing,
  keep in their caches. A task has a kind, a name, the path of its defining file, its
  invocation detail and its source location.
\<close>

datatype kind = Ant | Npm | VscodeTask

record task =
  kind :: kind
  name :: string
  filePath :: string
  invocation :: string
  location :: "nat \<times> nat"

subsection \<open>The world: module variables, host registries, caches, trace\<close>

text \<open>
  \<open>treeDataProvider\<close> and \<open>logOutputChannel\<close> are the two module variables of lines 27 and
  28; \<open>workspaceFolders\<close> is \<open>workspace.workspaceFolders\<close>, \<open>None\<close> for \<open>undefined\<close>;
  \<open>subscriptions\<close> is \<open>context.subscriptions\<close> and \<open>disposables\<close> the array of line 33. Then
  come the host's registries, in which each callback is kept with the event it listens to,
  the proxy configuration last applied to the HTTP helper, the two caches (a scope without
  an entry is an invalid one), the scopes the parser has been run on, and the trace of the
  calls made so far, the latest last.
\<close>

record world =
  treeDataProvider :: "TaskTreeDataProvider option"
  logOutputChannel :: "string option"
  workspaceFolders :: "string list option"
  settings :: settings
  subscriptions :: "disposable list"
  disposables :: "disposable list"
  commands :: "(string \<times> callback) list"
  watchers :: "watcher list"
  workspaceFoldersListeners :: "callback list"
  configurationListeners :: "callback list"
  textDocumentListeners :: "callback list"
  taskProviders :: "string list"
  treeViews :: "string list"
  hoverProviders :: "selector list"
  httpRequest :: "(string \<times> bool) option"
  tasksCache :: "(string \<times> kind) \<rightharpoonup> task list"
  hoverScriptsCache :: "document \<rightharpoonup> task list"
  parsed :: "(string \<times> kind) list"
  calls :: "call list"

text \<open>
  The environment: which calls throw (it may depend on the whole history, which the world
  holds), and the host's glob matching, \<open>globMatch h p path\<close>.
\<close>

record host =
  throws :: "world \<Rightarrow> call \<Rightarrow> error option"
  globMatch :: "string \<Rightarrow> string \<Rightarrow> bool"

subsection \<open>Actions: state passing with exceptions\<close>

type_synonym 'a act = "world \<Rightarrow> (error + 'a) \<times> world"

definition act_return :: "'a \<Rightarrow> 'a act" where
  "act_return a w = (Inr a, w)"

definition act_throw :: "error \<Rightarrow> 'a act" where
  "act_throw e w = (Inl e, w)"

definition act_bind :: "'a act \<Rightarrow> ('a \<Rightarrow> 'b act) \<Rightarrow> 'b act" where
  "act_bind m f w = (case m w of (Inl e, w') \<Rightarrow> (Inl e, w') | (Inr a, w') \<Rightarrow> f a w')"

definition act_then :: "'a act \<Rightarrow> 'b act \<Rightarrow> 'b act" where
  "act_then m k = act_bind m (\<lambda>_. k)"

text \<open>\<open>promise.catch(handler)\<close>: a rejection is handed to the handler, whose result resolves.\<close>

definition act_catch :: "'a act \<Rightarrow> (error \<Rightarrow> 'a act) \<Rightarrow> 'a act" where
  "act_catch m handler w = (case m w of (Inl e, w') \<Rightarrow> handler e w' | (Inr a, w') \<Rightarrow> (Inr a, w'))"

text \<open>A plain assignment or \<open>Array.push\<close>: it changes the world and cannot throw.\<close>

definition modify :: "(world \<Rightarrow> world) \<Rightarrow> unit act" where
  "modify f w = (Inr (), f w)"

text \<open>
  A call that leaves the entry point: it is appended to the trace, then it throws if the
  environment says so, and otherwise has its effect and returns its value.
\<close>

definition call :: "host \<Rightarrow> call \<Rightarrow> (world \<Rightarrow> 'a \<times> world) \<Rightarrow> 'a act" where
  "call h c eff w =
     (let w1 = w\<lparr>calls := calls w @ [c]\<rparr>
      in case throws h w c of
           Some e \<Rightarrow> (Inl e, w1)
         | None \<Rightarrow> (case eff w1 of (a, w2) \<Rightarrow> (Inr a, w2)))"

subsection \<open>Host registries\<close>

definition push :: "disposable \<Rightarrow> unit act" where
  \<comment> \<open>\<open>context.subscriptions.push(d)\<close>\<close>
  "push d = modify (\<lambda>w. w\<lparr>subscriptions := subscriptions w @ [d]\<rparr>)"

definition registerCommand :: "host \<Rightarrow> string \<Rightarrow> callback \<Rightarrow> disposable act" where
  "registerCommand h cmd cb =
     call h (RegisterCommand cmd) (\<lambda>w. (Command cmd, w\<lparr>commands := commands w @ [(cmd, cb)]\<rparr>))"

text \<open>
  A watcher is known to the source by reference: here by its index in the registry, which
  \<open>createFileSystemWatcher\<close> returns. A subscription at an index that is not in the registry
  would leave the registry as it is; the source subscribes to the watchers it has created.
\<close>

definition createFileSystemWatcher :: "host \<Rightarrow> string \<Rightarrow> nat act" where
  "createFileSystemWatcher h p =
     call h (CreateFileSystemWatcher p)
       (\<lambda>w. (length (watchers w),
              w\<lparr>watchers := watchers w @
                   [\<lparr>globPattern = p, onDidChange = [], onDidDelete = [], onDidCreate = []\<rparr>]\<rparr>))"

definition watcher_onDidChange :: "host \<Rightarrow> nat \<Rightarrow> callback \<Rightarrow> unit act" where
  "watcher_onDidChange h i cb =
     call h (OnDidChange i)
       (\<lambda>w. ((), w\<lparr>watchers := (watchers w)
                 [i := (watchers w ! i)\<lparr>onDidChange := onDidChange (watchers w ! i) @ [cb]\<rparr>]\<rparr>))"

definition watcher_onDidDelete :: "host \<Rightarrow> nat \<Rightarrow> callback \<Rightarrow> unit act" where
  "watcher_onDidDelete h i cb =
     call h (OnDidDelete i)
       (\<lambda>w. ((), w\<lparr>watchers := (watchers w)
                 [i := (watchers w ! i)\<lparr>onDidDelete := onDidDelete (watchers w ! i) @ [cb]\<rparr>]\<rparr>))"

definition watcher_onDidCreate :: "host \<Rightarrow> nat \<Rightarrow> callback \<Rightarrow> unit act" where
  "watcher_onDidCreate h i cb =
     call h (OnDidCreate i)
       (\<lambda>w. ((), w\<lparr>watchers := (watchers w)
                 [i := (watchers w ! i)\<lparr>onDidCreate := onDidCreate (watchers w ! i) @ [cb]\<rparr>]\<rparr>))"

definition onDidChangeWorkspaceFolders :: "host \<Rightarrow> callback \<Rightarrow> disposable act" where
  "onDidChangeWorkspaceFolders h cb =
     call h OnDidChangeWorkspaceFolders
       (\<lambda>w. (Listener cb, w\<lparr>workspaceFoldersListeners := workspaceFoldersListeners w @ [cb]\<rparr>))"

definition onDidChangeConfiguration :: "host \<Rightarrow> callback \<Rightarrow> disposable act" where
  "onDidChangeConfiguration h cb =
     call h OnDidChangeConfiguration
       (\<lambda>w. (Listener cb, w\<lparr>configurationListeners := configurationListeners w @ [cb]\<rparr>))"

definition onDidChangeTextDocument :: "host \<Rightarrow> callback \<Rightarrow> disposable act" where
  "onDidChangeTextDocument h cb =
     call h OnDidChangeTextDocument
       (\<lambda>w. (Listener cb, w\<lparr>textDocumentListeners := textDocumentListeners w @ [cb]\<rparr>))"

definition registerTaskProvider :: "host \<Rightarrow> string \<Rightarrow> disposable act" where
  "registerTaskProvider h ty =
     call h (RegisterTaskProvider ty) (\<lambda>w. (TaskProvider ty, w\<lparr>taskProviders := taskProviders w @ [ty]\<rparr>))"

definition createTreeView :: "host \<Rightarrow> string \<Rightarrow> disposable act" where
  "createTreeView h v =
     call h (CreateTreeView v) (\<lambda>w. (TreeView v, w\<lparr>treeViews := treeViews w @ [v]\<rparr>))"

definition registerHoverProviderHost :: "host \<Rightarrow> selector \<Rightarrow> disposable act" where
  \<comment> \<open>\<open>languages.registerHoverProvider(selector, provider)\<close>\<close>
  "registerHoverProviderHost h sel =
     call h (RegisterHoverProvider sel)
       (\<lambda>w. (HoverProvider sel, w\<lparr>hoverProviders := hoverProviders w @ [sel]\<rparr>))"

definition log :: "host \<Rightarrow> string \<Rightarrow> unit act" where
  "log h msg = call h (Log msg) (\<lambda>w. ((), w))"

definition refresh :: "host \<Rightarrow> TaskTreeDataProvider \<Rightarrow> unit act" where
  "refresh h t = call h Refresh (\<lambda>w. ((), w))"

text \<open>
  \<open>logOutputChannel.show()\<close>: the module variable is read when the statement runs, and a
  call on \<open>undefined\<close> is a TypeError.
\<close>

definition show_logOutputChannel :: "host \<Rightarrow> unit act" where
  "show_logOutputChannel h w =
     (case logOutputChannel w of
        None \<Rightarrow> act_throw (Thrown ''TypeError'') w
      | Some ch \<Rightarrow> call h Show (\<lambda>w. ((), w)) w)"

subsection \<open>The two cache invalidations\<close>

text \<open>
  Modelled from the spec: \<open>invalidateTasksCache\<close> lives in \<open>tasks.ts\<close>, which is missing.
  The spec's contract is that \<open>invalidate(scope | all)\<close> clears entries; the source calls it
  without a scope, so it clears every entry of the tasks cache.
\<close>

definition invalidateTasksCache :: "host \<Rightarrow> unit act" where
  "invalidateTasksCache h = call h InvalidateTasksCache (\<lambda>w. ((), w\<lparr>tasksCache := Map.empty\<rparr>))"

text \<open>
  Modelled from the spec: \<open>invalidateHoverScriptsCache\<close> lives in \<open>scriptHover.ts\<close>, which
  is missing. Called with a document it clears the entry of that document's scope, called
  without one it clears every entry of the hover-scripts cache.
\<close>

definition invalidateHoverScriptsCache :: "host \<Rightarrow> document option \<Rightarrow> unit act" where
  "invalidateHoverScriptsCache h d =
     call h (InvalidateHoverScriptsCache d)
       (\<lambda>w. ((), w\<lparr>hoverScriptsCache :=
                 (case d of None \<Rightarrow> Map.empty | Some doc \<Rightarrow> (hoverScriptsCache w)(doc := None))\<rparr>))"

subsection \<open>The functions of the entry point\<close>

text \<open>Lines 158 to 162. The arguments of \<open>configure\<close> are evaluated left to right.\<close>

definition configureHttpRequest :: "host \<Rightarrow> unit act" where
  "configureHttpRequest h =
     act_bind (call h (GetConfiguration ''http'') (\<lambda>w. (settings w, w))) (\<lambda>httpSettings.
     act_bind (call h (SettingGet ''proxy'')
                 (\<lambda>w. (case proxy httpSettings of None \<Rightarrow> [] | Some p \<Rightarrow> p, w))) (\<lambda>p.
     act_bind (call h (SettingGet ''proxyStrictSSL'')
                 (\<lambda>w. (case proxyStrictSSL httpSettings of None \<Rightarrow> True | Some b \<Rightarrow> b, w))) (\<lambda>b.
     call h (HttpRequestConfigure p b) (\<lambda>w. ((), w\<lparr>httpRequest := Some (p, b)\<rparr>)))))"

text \<open>Lines 88 to 95, the local function of \<open>registerAntTaskProvider\<close>.\<close>

definition invalidateScriptCaches :: "host \<Rightarrow> unit act" where
  "invalidateScriptCaches h =
     act_then (invalidateHoverScriptsCache h None)
    (act_then (invalidateTasksCache h)
       (\<lambda>w. case treeDataProvider w of
               Some t \<Rightarrow> refresh h t w
             | None \<Rightarrow> act_return () w))"

text \<open>
  Lines 85 to 126. \<open>if (workspace.workspaceFolders)\<close> tests the value for truthiness:
  \<open>undefined\<close> is falsy and every array is truthy, the empty one too.
\<close>

definition registerAntTaskProvider :: "host \<Rightarrow> disposable option act" where
  "registerAntTaskProvider h w =
     (case workspaceFolders w of
        None \<Rightarrow> act_return None w
      | Some _ \<Rightarrow>
         (act_bind (createFileSystemWatcher h ''**/[Bb]uild.xml'') (\<lambda>watcher.
          act_then (watcher_onDidChange h watcher InvalidateScriptCaches)
         (act_then (watcher_onDidDelete h watcher InvalidateScriptCaches)
         (act_then (watcher_onDidCreate h watcher InvalidateScriptCaches)
         (act_then (push (Watcher watcher))
         (act_bind (createFileSystemWatcher h ''**/package.json'') (\<lambda>watcher2.
          act_then (watcher_onDidChange h watcher2 InvalidateScriptCaches)
         (act_then (watcher_onDidDelete h watcher2 InvalidateScriptCaches)
         (act_then (watcher_onDidCreate h watcher2 InvalidateScriptCaches)
         (act_then (push (Watcher watcher2))
         (act_bind (createFileSystemWatcher h ''**/.vscode/tasks.json'') (\<lambda>watcher3.
          act_then (watcher_onDidChange h watcher3 InvalidateScriptCaches)
         (act_then (watcher_onDidDelete h watcher3 InvalidateScriptCaches)
         (act_then (watcher_onDidCreate h watcher3 InvalidateScriptCaches)
         (act_then (push (Watcher watcher3))
         (act_bind (onDidChangeWorkspaceFolders h InvalidateScriptCaches) (\<lambda>workspaceWatcher.
          act_then (push workspaceWatcher)
         (act_then (call h NewAntTaskProvider (\<lambda>w. ((), w)))
         (act_bind (registerTaskProvider h ''ant'') (\<lambda>disposable.
          act_return (Some disposable))))))))))))))))))))) w)"

text \<open>Lines 129 to 139.\<close>

definition registerExplorer :: "host \<Rightarrow> TaskTreeDataProvider option act" where
  "registerExplorer h w =
     (case workspaceFolders w of
        None \<Rightarrow> act_return None w
      | Some _ \<Rightarrow>
         (act_bind (call h NewTaskTreeDataProvider (\<lambda>w. (TaskTreeDataProvider, w))) (\<lambda>t.
          act_bind (createTreeView h ''taskView'') (\<lambda>view.
          act_then (push view)
         (act_return (Some t))))) w)"

text \<open>Lines 142 to 155.\<close>

definition npmSelector :: selector where
  "npmSelector = \<lparr>language = ''json'', scheme = ''file'', pattern = ''**/package.json''\<rparr>"

definition registerHoverProvider :: "host \<Rightarrow> NpmScriptHoverProvider option act" where
  "registerHoverProvider h w =
     (case workspaceFolders w of
        None \<Rightarrow> act_return None w
      | Some _ \<Rightarrow>
         (act_bind (call h NewNpmScriptHoverProvider (\<lambda>w. (NpmScriptHoverProvider, w))) (\<lambda>provider.
          act_bind (registerHoverProviderHost h npmSelector) (\<lambda>d.
          act_then (push d)
         (act_return (Some provider))))) w)"

text \<open>Lines 53 to 80, the body of \<open>tryInit\<close>.\<close>

definition tryInit :: "host \<Rightarrow> unit act" where
  "tryInit h =
     act_bind (registerAntTaskProvider h) (\<lambda>_.
     act_bind (registerExplorer h) (\<lambda>t.
     act_then (modify (\<lambda>w. w\<lparr>treeDataProvider := t\<rparr>))
    (act_bind (registerHoverProvider h) (\<lambda>_.
     act_then (configureHttpRequest h)
    (act_bind (onDidChangeConfiguration h ConfigurationChanged) (\<lambda>d.
     act_then (push d)
    (act_bind (onDidChangeTextDocument h TextDocumentChanged) (\<lambda>d.
     act_then (push d)
    (act_bind (registerCommand h ''taskView.runSelectedScript'' RunSelectedScript) (\<lambda>c.
     act_then (push c)
    (act_bind (call h AddJSONProviders (\<lambda>w. (JSONProviders, w))) (\<lambda>j.
     act_then (push j)
    (act_then (log h ''Tasks View started successfully'')
    (log h '' ''))))))))))))))"

text \<open>
  Lines 42 to 83, the function \<open>_activate\<close>, whose name cannot begin with an underscore
  here. \<open>if (showOutput)\<close> is taken for \<open>true\<close> only: not for \<open>false\<close>, not for a setting
  without a value.
\<close>

definition inner_activate :: "host \<Rightarrow> unit act" where
  "inner_activate h =
     act_bind (call h (CreateOutputChannel ''Task View'') (\<lambda>w. (''Task View'', w))) (\<lambda>ch.
     act_then (modify (\<lambda>w. w\<lparr>logOutputChannel := Some ch\<rparr>))
    (act_then (registerCommand h ''taskView.showOutput'' ShowOutput)
    (act_then (modify (\<lambda>w. w\<lparr>disposables := disposables w @ [OutputChannel ch]\<rparr>))
    (act_bind (call h (ConfigurationGet ''showOutput'') (\<lambda>w. (showOutput (settings w), w))) (\<lambda>v.
     act_then (if v = Some True then show_logOutputChannel h else act_return ())
    (tryInit h))))))"

text \<open>
  Lines 31 to 39. \<open>_activate\<close> is an \<open>async\<close> function, so whatever it throws is a rejection
  of its promise, which \<open>catch\<close> hands to \<open>console.error\<close>; the console belongs to the
  runtime and does not throw.
\<close>

definition console_error :: "error \<Rightarrow> unit act" where
  "console_error err = modify (\<lambda>w. w\<lparr>calls := calls w @ [ConsoleError err]\<rparr>)"

definition activate :: "host \<Rightarrow> unit act" where
  "activate h =
     act_then (modify (\<lambda>w. w\<lparr>disposables := [], subscriptions := subscriptions w @ [DisposeAll]\<rparr>))
       (act_catch (inner_activate h) console_error)"

subsection \<open>The callbacks, and the host delivering events to them\<close>

text \<open>
  What the host tells its listeners. A configuration change carries the new settings and
  the answer of \<open>e.affectsConfiguration\<close> for each key; a change of workspace folders
  carries the new value of \<open>workspace.workspaceFolders\<close>.
\<close>

datatype event =
    DidCreate string
  | DidChange string
  | DidDelete string
  | DidChangeWorkspaceFolders "string list option"
  | DidChangeConfiguration settings "string \<Rightarrow> bool"
  | DidChangeTextDocument document
  | ExecuteCommand string

text \<open>Lines 60 to 68, the listener of configuration changes.\<close>

definition onConfigurationChanged :: "host \<Rightarrow> (string \<Rightarrow> bool) \<Rightarrow> unit act" where
  "onConfigurationChanged h affectsConfiguration =
     act_then (configureHttpRequest h)
    (act_bind (call h (AffectsConfiguration ''taskView.exclude'')
                 (\<lambda>w. (affectsConfiguration ''taskView.exclude'', w))) (\<lambda>affected.
     if affected
     then act_then (invalidateTasksCache h)
            (\<lambda>w. case treeDataProvider w of
                    Some t \<Rightarrow> refresh h t w
                  | None \<Rightarrow> act_return () w)
     else act_return ()))"

text \<open>Lines 71 to 73, the listener of text-document changes.\<close>

definition onTextDocumentChanged :: "host \<Rightarrow> document \<Rightarrow> unit act" where
  "onTextDocumentChanged h d = invalidateHoverScriptsCache h (Some d)"

text \<open>
  Running a callback on the event it is called with. The host calls a listener with the
  events it has subscribed to only; the last equation is for the other combinations.
\<close>

fun invoke :: "host \<Rightarrow> callback \<Rightarrow> event \<Rightarrow> unit act" where
  "invoke h ShowOutput ev = show_logOutputChannel h"
| "invoke h ConfigurationChanged (DidChangeConfiguration st affects) = onConfigurationChanged h affects"
| "invoke h TextDocumentChanged (DidChangeTextDocument d) = onTextDocumentChanged h d"
| "invoke h InvalidateScriptCaches ev = invalidateScriptCaches h"
| "invoke h RunSelectedScript ev = call h RunScript (\<lambda>w. ((), w))"
| "invoke h cb ev = act_return ()"

text \<open>
  The host calls the listeners of an event one after the other, in the order of their
  registration, and keeps what a listener throws to itself.
\<close>

fun fire :: "host \<Rightarrow> callback list \<Rightarrow> event \<Rightarrow> world \<Rightarrow> world" where
  "fire h [] ev w = w"
| "fire h (cb # cbs) ev w = fire h cbs ev (snd (invoke h cb ev w))"

text \<open>The watchers whose glob matches a path, and the listeners the host calls for an event.\<close>

definition matching :: "host \<Rightarrow> string \<Rightarrow> watcher list \<Rightarrow> watcher list" where
  "matching h path ws = filter (\<lambda>wt. globMatch h (globPattern wt) path) ws"

fun listeners :: "host \<Rightarrow> world \<Rightarrow> event \<Rightarrow> callback list" where
  "listeners h w (DidCreate path) = concat (map onDidCreate (matching h path (watchers w)))"
| "listeners h w (DidChange path) = concat (map onDidChange (matching h path (watchers w)))"
| "listeners h w (DidDelete path) = concat (map onDidDelete (matching h path (watchers w)))"
| "listeners h w (DidChangeWorkspaceFolders fs) = workspaceFoldersListeners w"
| "listeners h w (DidChangeConfiguration st affects) = configurationListeners w"
| "listeners h w (DidChangeTextDocument d) = textDocumentListeners w"
| "listeners h w (ExecuteCommand cmd) = map snd (filter (\<lambda>c. fst c = cmd) (commands w))"

text \<open>What has changed in the host when the listeners hear of the event.\<close>

fun host_update :: "event \<Rightarrow> world \<Rightarrow> world" where
  "host_update (DidChangeWorkspaceFolders fs) w = w\<lparr>workspaceFolders := fs\<rparr>"
| "host_update (DidChangeConfiguration st affects) w = w\<lparr>settings := st\<rparr>"
| "host_update ev w = w"

definition deliver :: "host \<Rightarrow> event \<Rightarrow> world \<Rightarrow> world" where
  "deliver h ev w = fire h (listeners h (host_update ev w) ev) ev (host_update ev w)"

text \<open>A sequence of events, delivered one after the other.\<close>

fun run :: "host \<Rightarrow> event list \<Rightarrow> world \<Rightarrow> world" where
  "run h [] w = w"
| "run h (ev # evs) w = run h evs (deliver h ev w)"

text \<open>The world when the host loads the extension: nothing registered, both caches empty.\<close>

definition startup :: "string list option \<Rightarrow> settings \<Rightarrow> world" where
  "startup folders st =
     \<lparr>treeDataProvider = None, logOutputChannel = None, workspaceFolders = folders,
      settings = st, subscriptions = [], disposables = [], commands = [], watchers = [],
      workspaceFoldersListeners = [], configurationListeners = [], textDocumentListeners = [],
      taskProviders = [], treeViews = [], hoverProviders = [], httpRequest = None,
      tasksCache = Map.empty, hoverScriptsCache = Map.empty, parsed = [], calls = []\<rparr>"

text \<open>The world in which the host hands out events: after \<open>activate\<close> has run.\<close>

definition activated :: "host \<Rightarrow> string list option \<Rightarrow> settings \<Rightarrow> world" where
  "activated h folders st = snd (activate h (startup folders st))"

text \<open>A host none of whose calls throws.\<close>

definition quiet :: "host \<Rightarrow> bool" where
  "quiet h \<longleftrightarrow> (\<forall>w c. throws h w c = None)"

subsection \<open>Observing a world\<close>

text \<open>What the host has on record for the extension: the listeners of each event.\<close>

definition registrations ::
  "world \<Rightarrow> watcher list \<times> callback list \<times> callback list \<times> callback list \<times> (string \<times> callback) list" where
  "registrations w =
     (watchers w, workspaceFoldersListeners w, configurationListeners w,
      textDocumentListeners w, commands w)"

text \<open>The calls made on the way from the world \<open>w\<close> to the later world \<open>w'\<close>.\<close>

definition new_calls :: "world \<Rightarrow> world \<Rightarrow> call list" where
  "new_calls w w' = drop (length (calls w)) (calls w')"

text \<open>A path is watched when the glob of one of the registered watchers matches it.\<close>

definition watched :: "host \<Rightarrow> world \<Rightarrow> string \<Rightarrow> bool" where
  "watched h w path = list_ex (\<lambda>wt. globMatch h (globPattern wt) path) (watchers w)"

text \<open>
  The events whose listener is \<open>invalidateScriptCaches\<close>: a file created, changed or
  deleted under a watched path, and a change of the workspace folders.
\<close>

fun invalidating :: "host \<Rightarrow> world \<Rightarrow> event \<Rightarrow> bool" where
  "invalidating h w (DidCreate path) = watched h w path"
| "invalidating h w (DidChange path) = watched h w path"
| "invalidating h w (DidDelete path) = watched h w path"
| "invalidating h w (DidChangeWorkspaceFolders fs) = True"
| "invalidating h w ev = False"

text \<open>The value \<open>get(key, default)\<close> returns for the two proxy settings.\<close>

definition proxy_or_default :: "settings \<Rightarrow> string" where
  "proxy_or_default st = (case proxy st of None \<Rightarrow> [] | Some p \<Rightarrow> p)"

definition proxyStrictSSL_or_default :: "settings \<Rightarrow> bool" where
  "proxyStrictSSL_or_default st = (case proxyStrictSSL st of None \<Rightarrow> True | Some b \<Rightarrow> b)"

text \<open>The calls of \<open>configureHttpRequest\<close> under the settings \<open>st\<close>.\<close>

definition http_calls :: "settings \<Rightarrow> call list" where
  "http_calls st =
     [GetConfiguration ''http'', SettingGet ''proxy'', SettingGet ''proxyStrictSSL'',
      HttpRequestConfigure (proxy_or_default st) (proxyStrictSSL_or_default st)]"

text \<open>The calls of lines 44 to 51.\<close>

definition channel_calls :: "settings \<Rightarrow> call list" where
  "channel_calls st =
     [CreateOutputChannel ''Task View'', RegisterCommand ''taskView.showOutput'',
      ConfigurationGet ''showOutput'']
     @ (if showOutput st = Some True then [Show] else [])"

text \<open>The calls of one run of \<open>invalidateScriptCaches\<close> in the world \<open>w\<close>.\<close>

definition invalidation_calls :: "world \<Rightarrow> call list" where
  "invalidation_calls w =
     [InvalidateHoverScriptsCache None, InvalidateTasksCache]
     @ (if treeDataProvider w = None then [] else [Refresh])"

text \<open>
  The host offers a document to a hover provider when the document has the selector's
  language and scheme, and its path matches the selector's pattern.
\<close>

definition selects :: "host \<Rightarrow> selector \<Rightarrow> document \<Rightarrow> bool" where
  "selects h sel d \<longleftrightarrow>
     language sel = languageId d \<and> scheme sel = uriScheme d \<and> globMatch h (pattern sel) (fsPath d)"

definition hovered :: "host \<Rightarrow> world \<Rightarrow> document \<Rightarrow> bool" where
  "hovered h w d = list_ex (\<lambda>sel. selects h sel d) (hoverProviders w)"

text \<open>Nothing that depends on a workspace folder is registered.\<close>

definition unregistered :: "world \<Rightarrow> bool" where
  "unregistered w \<longleftrightarrow>
     workspaceFolders w = None \<and> treeDataProvider w = None \<and> watchers w = [] \<and>
     workspaceFoldersListeners w = [] \<and> taskProviders w = [] \<and> treeViews w = [] \<and>
     hoverProviders w = []"

text \<open>The settings are \<open>st\<close> and the output channel has not been shown.\<close>

definition silent :: "settings \<Rightarrow> world \<Rightarrow> bool" where
  "silent st w \<longleftrightarrow> settings w = st \<and> Show \<notin> set (calls w)"

text \<open>No listener of text-document changes other than the one of line 71.\<close>

definition heard :: "world \<Rightarrow> bool" where
  "heard w \<longleftrightarrow> set (textDocumentListeners w) \<subseteq> {TextDocumentChanged}"

subsection \<open>Invariants of actions\<close>

text \<open>
  \<open>yields I R m\<close>: started in a world that satisfies \<open>I\<close>, the action \<open>m\<close> ends in a world
  that satisfies \<open>I\<close>, whether it returns or throws, and what it returns satisfies \<open>R\<close>.
\<close>

fun post :: "(world \<Rightarrow> bool) \<Rightarrow> ('a \<Rightarrow> bool) \<Rightarrow> (error + 'a) \<times> world \<Rightarrow> bool" where
  "post I R (Inl e, w) = I w"
| "post I R (Inr a, w) = (I w \<and> R a)"

definition yields :: "(world \<Rightarrow> bool) \<Rightarrow> ('a \<Rightarrow> bool) \<Rightarrow> 'a act \<Rightarrow> bool" where
  "yields I R m \<longleftrightarrow> (\<forall>w. I w \<longrightarrow> post I R (m w))"

section \<open>The discovery cache and the task provider\<close>

text \<open>
  Modelled from the spec: the exclusion test of the task provider (\<open>tasks.ts\<close>, which is
  missing). A file is excluded when one of the configured exclusion globs matches it.
\<close>

definition excluded :: "host \<Rightarrow> string list \<Rightarrow> string \<Rightarrow> bool" where
  "excluded h pats f = list_ex (\<lambda>p. globMatch h p f) pats"

text \<open>
  Modelled from the spec: \<open>get(scope)\<close> of the discovery cache (\<open>tasks.ts\<close>, which is
  missing). It returns the entry of the scope, a workspace folder and a kind, and
  populates it via the parser if it is absent. The parser and the files it reads are
  missing too: \<open>discover scope\<close> stands for what the parser finds in the files of the scope
  at the time of the call. The tasks of excluded files are dropped when the entry is
  populated, and \<open>parsed\<close> records each run of the parser.
\<close>

definition getTasks ::
  "host \<Rightarrow> (string \<times> kind \<Rightarrow> task list) \<Rightarrow> string \<times> kind \<Rightarrow> world \<Rightarrow> task list \<times> world" where
  "getTasks h discover scope w =
     (case tasksCache w scope of
        Some ts \<Rightarrow> (ts, w)
      | None \<Rightarrow>
          (let ts = filter (\<lambda>t. \<not> excluded h (exclude (settings w)) (filePath t)) (discover scope)
           in (ts, w\<lparr>tasksCache := (tasksCache w)(scope \<mapsto> ts), parsed := parsed w @ [scope]\<rparr>)))"

text \<open>
  Modelled from the spec: \<open>list(kind)\<close> of the task provider (\<open>tasks.ts\<close>, which is missing):
  the tasks of the kind in every workspace folder, in the order of the folders, and none
  when there is no folder.
\<close>

fun listFolders ::
  "host \<Rightarrow> (string \<times> kind \<Rightarrow> task list) \<Rightarrow> kind \<Rightarrow> string list \<Rightarrow> world \<Rightarrow> task list \<times> world" where
  "listFolders h discover k [] w = ([], w)"
| "listFolders h discover k (f # fs) w =
     (case getTasks h discover (f, k) w of
        (ts, w1) \<Rightarrow> (case listFolders h discover k fs w1 of (ts', w2) \<Rightarrow> (ts @ ts', w2)))"

definition listTasks ::
  "host \<Rightarrow> (string \<times> kind \<Rightarrow> task list) \<Rightarrow> kind \<Rightarrow> world \<Rightarrow> task list \<times> world" where
  "listTasks h discover k w =
     listFolders h discover k (case workspaceFolders w of None \<Rightarrow> [] | Some fs \<Rightarrow> fs) w"

text \<open>What happens after activation: the host delivers an event, or the tasks are listed.\<close>

datatype action =
    Event event
  | ListTasks kind "string \<times> kind \<Rightarrow> task list"

fun perform :: "host \<Rightarrow> action \<Rightarrow> world \<Rightarrow> world" where
  "perform h (Event ev) w = deliver h ev w"
| "perform h (ListTasks k discover) w = snd (listTasks h discover k w)"

fun perform_all :: "host \<Rightarrow> action list \<Rightarrow> world \<Rightarrow> world" where
  "perform_all h [] w = w"
| "perform_all h (a # as) w = perform_all h as (perform h a w)"

text \<open>
  The host reports a change of the exclusion globs: an event that changes them answers
  \<open>true\<close> to \<open>affectsConfiguration('taskView.exclude')\<close>.
\<close>

fun reported :: "world \<Rightarrow> action \<Rightarrow> bool" where
  "reported w (Event (DidChangeConfiguration st affects)) =
     (exclude st = exclude (settings w) \<or> affects ''taskView.exclude'')"
| "reported w a = True"

fun all_reported :: "host \<Rightarrow> action list \<Rightarrow> world \<Rightarrow> bool" where
  "all_reported h [] w = True"
| "all_reported h (a # as) w = (reported w a \<and> all_reported h as (perform h a w))"

text \<open>No entry of the tasks cache holds a task of a file the current settings exclude.\<close>

definition cache_respects_exclusion :: "host \<Rightarrow> world \<Rightarrow> bool" where
  "cache_respects_exclusion h w \<longleftrightarrow>
     (\<forall>scope ts. tasksCache w scope = Some ts \<longrightarrow>
        (\<forall>t \<in> set ts. \<not> excluded h (exclude (settings w)) (filePath t)))"

section \<open>Sample hosts and inputs\<close>

definition sample_glob :: "string \<Rightarrow> string \<Rightarrow> bool" where
  "sample_glob p path \<longleftrightarrow>
     (p = ''**/package.json'' \<and> path = ''/ws/package.json'') \<or>
     (p = ''**/dist/**'' \<and> path = ''/ws/dist/package.json'')"

definition never :: "world \<Rightarrow> call \<Rightarrow> error option" where
  "never w c = None"

definition no_channel :: "world \<Rightarrow> call \<Rightarrow> error option" where
  "no_channel w c =
     (if c = CreateOutputChannel ''Task View'' then Some (Thrown ''no channel'') else None)"

definition quiet_host :: host where
  "quiet_host = \<lparr>throws = never, globMatch = sample_glob\<rparr>"

definition failing_host :: host where
  "failing_host = \<lparr>throws = no_channel, globMatch = sample_glob\<rparr>"

definition sample_settings :: settings where
  "sample_settings =
     \<lparr>showOutput = Some True, exclude = [''**/dist/**''], proxy = None, proxyStrictSSL = None\<rparr>"

definition affects_all :: "string \<Rightarrow> bool" where
  "affects_all key = True"

definition sample_document :: document where
  "sample_document = \<lparr>languageId = ''json'', uriScheme = ''file'', fsPath = ''/ws/package.json''\<rparr>"

definition build_task :: task where
  "build_task =
     \<lparr>kind = Npm, name = ''build'', filePath = ''/ws/package.json'', invocation = ''tsc -p .'',
      location = (2, 4)\<rparr>"

definition dist_task :: task where
  "dist_task =
     \<lparr>kind = Npm, name = ''build'', filePath = ''/ws/dist/package.json'', invocation = ''tsc -p .'',
      location = (2, 4)\<rparr>"

definition test_task :: task where
  "test_task =
     \<lparr>kind = Npm, name = ''test'', filePath = ''/ws/package.json'', invocation = ''mocha'',
      location = (3, 4)\<rparr>"

text \<open>What the parser finds in \<open>/ws\<close> after \<open>package.json\<close> has changed.\<close>

definition fresh_discover :: "string \<times> kind \<Rightarrow> task list" where
  "fresh_discover scope = (if scope = (''/ws'', Npm) then [test_task, dist_task] else [])"

definition open_settings :: settings where
  "open_settings = \<lparr>showOutput = Some True, exclude = [], proxy = None, proxyStrictSSL = None\<rparr>"

text \<open>The tasks are listed, then the exclusion globs change from none to \<open>**/dist/**\<close>.\<close>

definition sample_actions :: "action list" where
  "sample_actions =
     [ListTasks Npm fresh_discover, Event (DidChangeConfiguration sample_settings affects_all)]"

text \<open>
  A world after activation in the folder \<open>/ws\<close> in which both caches have been populated.
\<close>

definition sample_world :: world where
  "sample_world =
     (activated quiet_host (Some [''/ws'']) sample_settings)
       \<lparr>tasksCache := [(''/ws'', Npm) \<mapsto> [build_task]],
        hoverScriptsCache := [sample_document \<mapsto> [build_task]]\<rparr>"

section \<open>Reasoning about actions\<close>

lemmas act_defs = act_bind_def act_then_def act_return_def act_throw_def act_catch_def modify_def
  call_def

lemmas host_defs = push_def registerCommand_def createFileSystemWatcher_def
  watcher_onDidChange_def watcher_onDidDelete_def watcher_onDidCreate_def
  onDidChangeWorkspaceFolders_def onDidChangeConfiguration_def onDidChangeTextDocument_def
  registerTaskProvider_def createTreeView_def registerHoverProviderHost_def log_def refresh_def
  invalidateTasksCache_def invalidateHoverScriptsCache_def

lemmas activation_defs = activated_def activate_def inner_activate_def tryInit_def
  registerAntTaskProvider_def registerExplorer_def registerHoverProvider_def
  configureHttpRequest_def startup_def console_error_def show_logOutputChannel_def

lemmas trace_defs = channel_calls_def http_calls_def proxy_or_default_def
  proxyStrictSSL_or_default_def

text \<open>
  An invariant passes through the combinators of actions: a proof about a function of the
  entry point follows the function's text, one rule for each statement.
\<close>

lemma yieldsI: "(\<And>w. I w \<Longrightarrow> post I R (m w)) \<Longrightarrow> yields I R m"
  by (simp add: yields_def)

lemma yieldsD: "yields I R m \<Longrightarrow> I w \<Longrightarrow> post I R (m w)"
  by (simp add: yields_def)

lemma yields_return: "R a \<Longrightarrow> yields I R (act_return a)"
  by (simp add: yields_def act_return_def)

lemma yields_bind:
  assumes "yields I R m" and "\<And>a. R a \<Longrightarrow> yields I S (f a)"
  shows "yields I S (act_bind m f)"
proof (rule yieldsI)
  fix w assume "I w"
  with assms(1) have m: "post I R (m w)"
    by (rule yieldsD)
  show "post I S (act_bind m f w)"
  proof (cases "m w")
    case (Pair r w')
    show ?thesis
    proof (cases r)
      case (Inl e)
      with Pair m show ?thesis by (simp add: act_bind_def)
    next
      case (Inr a)
      with Pair m have "I w'" and "R a" by simp_all
      then have "post I S (f a w')"
        using assms(2) yieldsD by blast
      with Pair Inr show ?thesis by (simp add: act_bind_def)
    qed
  qed
qed

lemma yields_bind_any:
  assumes "yields I (\<lambda>_. True) m" and "\<And>a. yields I S (f a)"
  shows "yields I S (act_bind m f)"
  by (rule yields_bind [OF assms(1)]) (rule assms(2))

lemma yields_bind_None:
  assumes "yields I (\<lambda>r. r = None) m" and "yields I S (f None)"
  shows "yields I S (act_bind m f)"
  by (rule yields_bind [OF assms(1)]) (simp add: assms(2))

lemma yields_then_any:
  assumes "yields I (\<lambda>_. True) m" and "yields I S k"
  shows "yields I S (act_then m k)"
  unfolding act_then_def by (rule yields_bind_any [OF assms(1)]) (rule assms(2))

lemma yields_modify:
  assumes "\<And>w. I w \<Longrightarrow> I (f w)"
  shows "yields I (\<lambda>_. True) (modify f)"
  using assms by (simp add: yields_def modify_def)

lemma yields_call_result:
  assumes "\<And>w. I w \<Longrightarrow> I (w\<lparr>calls := calls w @ [c]\<rparr>)"
      and "\<And>w. I w \<Longrightarrow> I (snd (eff w)) \<and> R (fst (eff w))"
  shows "yields I R (call h c eff)"
proof (rule yieldsI)
  fix w assume "I w"
  obtain a w2 where e: "eff (w\<lparr>calls := calls w @ [c]\<rparr>) = (a, w2)"
    by (cases "eff (w\<lparr>calls := calls w @ [c]\<rparr>)")
  have 1: "I (w\<lparr>calls := calls w @ [c]\<rparr>)"
    using \<open>I w\<close> by (rule assms(1))
  from assms(2) [OF 1] e have "I w2" and "R a"
    by simp_all
  with 1 e show "post I R (call h c eff w)"
    by (cases "throws h w c") (simp_all add: call_def Let_def)
qed

lemma yields_call:
  assumes "\<And>w. I w \<Longrightarrow> I (w\<lparr>calls := calls w @ [c]\<rparr>)"
      and "\<And>w. I w \<Longrightarrow> I (snd (eff w))"
  shows "yields I (\<lambda>_. True) (call h c eff)"
  by (rule yields_call_result) (simp_all add: assms)

lemma yields_catch:
  assumes "yields I R m" and "\<And>e. yields I R (handler e)"
  shows "yields I R (act_catch m handler)"
proof (rule yieldsI)
  fix w assume "I w"
  with assms(1) have m: "post I R (m w)"
    by (rule yieldsD)
  show "post I R (act_catch m handler w)"
  proof (cases "m w")
    case (Pair r w')
    show ?thesis
    proof (cases r)
      case (Inl e)
      with Pair m have "I w'" by simp
      with assms(2) have "post I R (handler e w')" by (rule yieldsD)
      with Pair Inl show ?thesis by (simp add: act_catch_def)
    next
      case (Inr a)
      with Pair m show ?thesis by (simp add: act_catch_def)
    qed
  qed
qed

lemma yields_show:
  assumes "\<And>w. I w \<Longrightarrow> I (w\<lparr>calls := calls w @ [Show]\<rparr>)"
  shows "yields I (\<lambda>_. True) (show_logOutputChannel h)"
proof (rule yieldsI)
  fix w assume "I w"
  have "yields I (\<lambda>_. True) (call h Show (\<lambda>w. ((), w)))"
    by (rule yields_call) (simp_all add: assms)
  then have "post I (\<lambda>_. True) (call h Show (\<lambda>w. ((), w)) w)"
    using \<open>I w\<close> by (rule yieldsD)
  then show "post I (\<lambda>_. True) (show_logOutputChannel h w)"
    using \<open>I w\<close> by (cases "logOutputChannel w") (simp_all add: show_logOutputChannel_def act_throw_def)
qed

lemma yields_folders:
  assumes "yields I R m" and "\<And>fs. yields I R (k fs)"
  shows "yields I R (\<lambda>w. case workspaceFolders w of None \<Rightarrow> m w | Some fs \<Rightarrow> k fs w)"
proof (rule yieldsI)
  fix w assume "I w"
  with assms show "post I R (case workspaceFolders w of None \<Rightarrow> m w | Some fs \<Rightarrow> k fs w)"
    by (cases "workspaceFolders w") (simp_all add: yieldsD)
qed

text \<open>
  The calls two worlds differ by, when the later one extends the trace of the earlier.
\<close>

lemma new_calls_append: "calls w' = calls w @ cs \<Longrightarrow> new_calls w w' = cs"
  by (simp add: new_calls_def)

section \<open>Activation never rejects\<close>

lemma activate_catches:
  "activate h w =
     (case inner_activate h (w\<lparr>disposables := [], subscriptions := subscriptions w @ [DisposeAll]\<rparr>) of
        (Inl e, w') \<Rightarrow> (Inr (), w'\<lparr>calls := calls w' @ [ConsoleError e]\<rparr>)
      | (Inr a, w') \<Rightarrow> (Inr a, w'))"
  by (simp add: activate_def act_then_def act_bind_def modify_def act_catch_def console_error_def
        split: prod.splits sum.splits)

lemma activate_resolves: "fst (activate h w) = Inr ()"
  unfolding activate_catches by (simp split: prod.splits sum.splits)

text \<open>
  Claim C5. On any host, \<open>activate\<close> resolves: whatever the inner activation throws is
  caught, and handed to \<open>console.error\<close> in the world the inner activation had reached.
\<close>

theorem activate_never_rejects:
  "fst (activate h w) = Inr ()
   \<and> (\<forall>e w'. inner_activate h (w\<lparr>disposables := [], subscriptions := subscriptions w @ [DisposeAll]\<rparr>)
         = (Inl e, w')
       \<longrightarrow> snd (activate h w) = w'\<lparr>calls := calls w' @ [ConsoleError e]\<rparr>)"
  by (rule conjI, rule activate_resolves) (simp add: activate_catches)

lemma failing_inner_activate:
  "fst (inner_activate failing_host w) = Inl (Thrown ''no channel'')"
  "calls (snd (inner_activate failing_host w)) = calls w @ [CreateOutputChannel ''Task View'']"
  by (simp_all add: inner_activate_def act_bind_def call_def failing_host_def no_channel_def)

theorem activate_never_rejects_witness:
  "fst (inner_activate failing_host
          ((startup None sample_settings)
             \<lparr>disposables := [],
              subscriptions := subscriptions (startup None sample_settings) @ [DisposeAll]\<rparr>))
     = Inl (Thrown ''no channel'')
   \<and> fst (activate failing_host (startup None sample_settings)) = Inr ()
   \<and> calls (snd (activate failing_host (startup None sample_settings))) =
       [CreateOutputChannel ''Task View'', ConsoleError (Thrown ''no channel'')]"
proof -
  let ?w = "(startup None sample_settings)
     \<lparr>disposables := [], subscriptions := subscriptions (startup None sample_settings) @ [DisposeAll]\<rparr>"
  have "inner_activate failing_host ?w =
      (Inl (Thrown ''no channel''), snd (inner_activate failing_host ?w))"
    using failing_inner_activate(1) [of ?w] by (cases "inner_activate failing_host ?w") simp
  with activate_never_rejects [of failing_host "startup None sample_settings"]
  have "fst (activate failing_host (startup None sample_settings)) = Inr ()"
    and "snd (activate failing_host (startup None sample_settings)) =
      (snd (inner_activate failing_host ?w))
        \<lparr>calls := calls (snd (inner_activate failing_host ?w)) @ [ConsoleError (Thrown ''no channel'')]\<rparr>"
    by blast+
  then show ?thesis
    by (simp add: failing_inner_activate) (simp add: startup_def)
qed

section \<open>Activation on a host whose calls do not throw\<close>

text \<open>
  What activation leaves behind, field by field, with and without workspace folders.
\<close>

lemma activated_with_folders:
  assumes "quiet h"
  shows "watchers (activated h (Some fs) st) =
       [\<lparr>globPattern = ''**/[Bb]uild.xml'', onDidChange = [InvalidateScriptCaches],
          onDidDelete = [InvalidateScriptCaches], onDidCreate = [InvalidateScriptCaches]\<rparr>,
        \<lparr>globPattern = ''**/package.json'', onDidChange = [InvalidateScriptCaches],
          onDidDelete = [InvalidateScriptCaches], onDidCreate = [InvalidateScriptCaches]\<rparr>,
        \<lparr>globPattern = ''**/.vscode/tasks.json'', onDidChange = [InvalidateScriptCaches],
          onDidDelete = [InvalidateScriptCaches], onDidCreate = [InvalidateScriptCaches]\<rparr>]"
    and "workspaceFoldersListeners (activated h (Some fs) st) = [InvalidateScriptCaches]"
    and "configurationListeners (activated h (Some fs) st) = [ConfigurationChanged]"
    and "textDocumentListeners (activated h (Some fs) st) = [TextDocumentChanged]"
    and "commands (activated h (Some fs) st) =
       [(''taskView.showOutput'', ShowOutput), (''taskView.runSelectedScript'', RunSelectedScript)]"
    and "treeDataProvider (activated h (Some fs) st) = Some TaskTreeDataProvider"
    and "taskProviders (activated h (Some fs) st) = [''ant'']"
    and "treeViews (activated h (Some fs) st) = [''taskView'']"
    and "hoverProviders (activated h (Some fs) st) = [npmSelector]"
    and "subscriptions (activated h (Some fs) st) =
       [DisposeAll, Watcher 0, Watcher 1, Watcher 2, Listener InvalidateScriptCaches,
        TreeView ''taskView'', HoverProvider npmSelector, Listener ConfigurationChanged,
        Listener TextDocumentChanged, Command ''taskView.runSelectedScript'', JSONProviders]"
    and "httpRequest (activated h (Some fs) st) =
       Some (proxy_or_default st, proxyStrictSSL_or_default st)"
    and "tasksCache (activated h (Some fs) st) = Map.empty"
    and "hoverScriptsCache (activated h (Some fs) st) = Map.empty"
    and "parsed (activated h (Some fs) st) = []"
    and "settings (activated h (Some fs) st) = st"
    and "workspaceFolders (activated h (Some fs) st) = Some fs"
    and "logOutputChannel (activated h (Some fs) st) = Some ''Task View''"
    and "calls (activated h (Some fs) st) = channel_calls st @
       [CreateFileSystemWatcher ''**/[Bb]uild.xml'', OnDidChange 0, OnDidDelete 0, OnDidCreate 0,
        CreateFileSystemWatcher ''**/package.json'', OnDidChange 1, OnDidDelete 1, OnDidCreate 1,
        CreateFileSystemWatcher ''**/.vscode/tasks.json'', OnDidChange 2, OnDidDelete 2,
        OnDidCreate 2, OnDidChangeWorkspaceFolders, NewAntTaskProvider,
        RegisterTaskProvider ''ant'', NewTaskTreeDataProvider, CreateTreeView ''taskView'',
        NewNpmScriptHoverProvider, RegisterHoverProvider npmSelector]
       @ http_calls st @
       [OnDidChangeConfiguration, OnDidChangeTextDocument,
        RegisterCommand ''taskView.runSelectedScript'', AddJSONProviders,
        Log ''Tasks View started successfully'', Log '' '']"
  using assms by (simp_all add: activation_defs host_defs act_defs quiet_def trace_defs)

lemma activated_without_folders:
  assumes "quiet h"
  shows "configurationListeners (activated h None st) = [ConfigurationChanged]"
    and "textDocumentListeners (activated h None st) = [TextDocumentChanged]"
    and "commands (activated h None st) =
       [(''taskView.showOutput'', ShowOutput), (''taskView.runSelectedScript'', RunSelectedScript)]"
    and "subscriptions (activated h None st) =
       [DisposeAll, Listener ConfigurationChanged, Listener TextDocumentChanged,
        Command ''taskView.runSelectedScript'', JSONProviders]"
    and "httpRequest (activated h None st) =
       Some (proxy_or_default st, proxyStrictSSL_or_default st)"
    and "tasksCache (activated h None st) = Map.empty"
    and "hoverScriptsCache (activated h None st) = Map.empty"
    and "parsed (activated h None st) = []"
    and "settings (activated h None st) = st"
    and "workspaceFolders (activated h None st) = None"
    and "treeDataProvider (activated h None st) = None"
    and "logOutputChannel (activated h None st) = Some ''Task View''"
    and "calls (activated h None st) = channel_calls st @ http_calls st @
       [OnDidChangeConfiguration, OnDidChangeTextDocument,
        RegisterCommand ''taskView.runSelectedScript'', AddJSONProviders,
        Log ''Tasks View started successfully'', Log '' '']"
  using assms by (simp_all add: activation_defs host_defs act_defs quiet_def trace_defs)

lemma registrations_with_folders:
  assumes "quiet h" and "registrations w = registrations (activated h (Some fs) st)"
  shows "watchers w =
       [\<lparr>globPattern = ''**/[Bb]uild.xml'', onDidChange = [InvalidateScriptCaches],
          onDidDelete = [InvalidateScriptCaches], onDidCreate = [InvalidateScriptCaches]\<rparr>,
        \<lparr>globPattern = ''**/package.json'', onDidChange = [InvalidateScriptCaches],
          onDidDelete = [InvalidateScriptCaches], onDidCreate = [InvalidateScriptCaches]\<rparr>,
        \<lparr>globPattern = ''**/.vscode/tasks.json'', onDidChange = [InvalidateScriptCaches],
          onDidDelete = [InvalidateScriptCaches], onDidCreate = [InvalidateScriptCaches]\<rparr>]"
    and "workspaceFoldersListeners w = [InvalidateScriptCaches]"
  using assms(2) by (simp_all add: registrations_def activated_with_folders [OF assms(1)])

lemma registrations_listeners:
  assumes "quiet h" and "registrations w = registrations (activated h folders st)"
  shows "configurationListeners w = [ConfigurationChanged]"
    and "textDocumentListeners w = [TextDocumentChanged]"
proof -
  have "configurationListeners (activated h folders st) = [ConfigurationChanged]"
    and "textDocumentListeners (activated h folders st) = [TextDocumentChanged]"
    by (cases folders; simp add: activated_with_folders [OF assms(1)]
          activated_without_folders [OF assms(1)])+
  with assms(2) show "configurationListeners w = [ConfigurationChanged]"
    and "textDocumentListeners w = [TextDocumentChanged]"
    by (simp_all add: registrations_def)
qed

subsection \<open>The sample host and the sample world\<close>

lemma quiet_quiet_host: "quiet quiet_host"
  by (simp add: quiet_def quiet_host_def never_def)

lemma sample_world_registrations:
  "registrations sample_world = registrations (activated quiet_host (Some [''/ws'']) sample_settings)"
  by (simp add: registrations_def sample_world_def)

lemma sample_world_fields:
  "treeDataProvider sample_world = Some TaskTreeDataProvider"
  "tasksCache sample_world = [(''/ws'', Npm) \<mapsto> [build_task]]"
  "hoverScriptsCache sample_world = [sample_document \<mapsto> [build_task]]"
  "watchers sample_world = watchers (activated quiet_host (Some [''/ws'']) sample_settings)"
  "settings sample_world = sample_settings"
  "parsed sample_world = []"
  by (simp_all add: sample_world_def activated_with_folders [OF quiet_quiet_host])

lemma sample_glob_package_json:
  "globMatch quiet_host ''**/package.json'' ''/ws/package.json''"
  "\<not> globMatch quiet_host ''**/[Bb]uild.xml'' ''/ws/package.json''"
  "\<not> globMatch quiet_host ''**/.vscode/tasks.json'' ''/ws/package.json''"
  by (simp_all add: quiet_host_def sample_glob_def)

lemma sample_excluded:
  "excluded quiet_host [''**/dist/**''] (filePath dist_task)"
  "\<not> excluded quiet_host [''**/dist/**''] (filePath test_task)"
  "\<not> excluded quiet_host [] f"
  by (simp_all add: excluded_def quiet_host_def sample_glob_def dist_task_def test_task_def)

subsection \<open>The watchers and the hover provider\<close>

text \<open>
  Claim C2. Activation with at least one workspace folder, on a host whose calls do not
  throw, leaves exactly three watchers, for \<open>**/[Bb]uild.xml\<close>, \<open>**/package.json\<close> and
  \<open>**/.vscode/tasks.json\<close>, each with \<open>invalidateScriptCaches\<close> subscribed to its change,
  delete and create events.
\<close>

theorem three_watchers_created:
  assumes "quiet h" and "fs \<noteq> []"
  shows "watchers (activated h (Some fs) st) =
       [\<lparr>globPattern = ''**/[Bb]uild.xml'', onDidChange = [InvalidateScriptCaches],
          onDidDelete = [InvalidateScriptCaches], onDidCreate = [InvalidateScriptCaches]\<rparr>,
        \<lparr>globPattern = ''**/package.json'', onDidChange = [InvalidateScriptCaches],
          onDidDelete = [InvalidateScriptCaches], onDidCreate = [InvalidateScriptCaches]\<rparr>,
        \<lparr>globPattern = ''**/.vscode/tasks.json'', onDidChange = [InvalidateScriptCaches],
          onDidDelete = [InvalidateScriptCaches], onDidCreate = [InvalidateScriptCaches]\<rparr>]"
  using assms(1) by (rule activated_with_folders)

theorem three_watchers_created_witness:
  "quiet quiet_host \<and> [''/ws''] \<noteq> []
   \<and> map globPattern (watchers (activated quiet_host (Some [''/ws'']) sample_settings)) =
       [''**/[Bb]uild.xml'', ''**/package.json'', ''**/.vscode/tasks.json'']"
  using three_watchers_created [of quiet_host "[''/ws'']" sample_settings]
  by (simp add: quiet_quiet_host)

text \<open>
  Claim C10. Activation with at least one workspace folder, on a host whose calls do not
  throw, registers the hover provider for one selector, language \<open>json\<close>, scheme \<open>file\<close>,
  pattern \<open>**/package.json\<close>: the documents the host offers it are those of that language
  and scheme whose path matches the pattern.
\<close>

theorem hover_provider_selector:
  assumes "quiet h" and "fs \<noteq> []"
  shows "hoverProviders (activated h (Some fs) st) =
       [\<lparr>language = ''json'', scheme = ''file'', pattern = ''**/package.json''\<rparr>]
     \<and> (hovered h (activated h (Some fs) st) d \<longleftrightarrow>
          languageId d = ''json'' \<and> uriScheme d = ''file''
          \<and> globMatch h ''**/package.json'' (fsPath d))"
  by (auto simp add: activated_with_folders [OF assms(1)] npmSelector_def hovered_def selects_def)

theorem hover_provider_selector_witness:
  "quiet quiet_host \<and> [''/ws''] \<noteq> []
   \<and> hovered quiet_host (activated quiet_host (Some [''/ws'']) sample_settings) sample_document"
  using hover_provider_selector [of quiet_host "[''/ws'']" sample_settings sample_document]
  by (simp add: quiet_quiet_host sample_document_def sample_glob_package_json)

section \<open>Activation without a workspace\<close>

lemma registerAntTaskProvider_undefined:
  "workspaceFolders w = None \<Longrightarrow> registerAntTaskProvider h w = (Inr None, w)"
  by (simp add: registerAntTaskProvider_def act_return_def)

lemma registerExplorer_undefined:
  "workspaceFolders w = None \<Longrightarrow> registerExplorer h w = (Inr None, w)"
  by (simp add: registerExplorer_def act_return_def)

lemma registerHoverProvider_undefined:
  "workspaceFolders w = None \<Longrightarrow> registerHoverProvider h w = (Inr None, w)"
  by (simp add: registerHoverProvider_def act_return_def)

lemma unregistered_registrations:
  "yields unregistered (\<lambda>r. r = None) (registerAntTaskProvider h)"
  "yields unregistered (\<lambda>r. r = None) (registerExplorer h)"
  "yields unregistered (\<lambda>r. r = None) (registerHoverProvider h)"
  by (simp_all add: yields_def unregistered_def registerAntTaskProvider_undefined
        registerExplorer_undefined registerHoverProvider_undefined)

lemma unregistered_show: "yields unregistered (\<lambda>_. True) (show_logOutputChannel h)"
  by (rule yields_show) (simp add: unregistered_def)

lemma unregistered_configureHttpRequest: "yields unregistered (\<lambda>_. True) (configureHttpRequest h)"
  unfolding configureHttpRequest_def
  by (intro yields_bind_any yields_call) (simp_all add: unregistered_def)

lemma unregistered_tryInit: "yields unregistered (\<lambda>_. True) (tryInit h)"
  unfolding tryInit_def host_defs
  apply (rule yields_bind_None, rule unregistered_registrations)
  apply (rule yields_bind_None, rule unregistered_registrations)
  apply (rule yields_then_any, rule yields_modify, simp add: unregistered_def)
  apply (rule yields_bind_None, rule unregistered_registrations)
  apply (intro yields_bind_any yields_then_any yields_call yields_modify unregistered_configureHttpRequest)
  apply (simp_all add: unregistered_def)
  done

lemma unregistered_inner_activate: "yields unregistered (\<lambda>_. True) (inner_activate h)"
  unfolding inner_activate_def host_defs
  apply (intro yields_bind_any yields_then_any yields_call yields_modify unregistered_tryInit)
  apply (simp_all add: unregistered_def unregistered_show yields_return)
  done

lemma unregistered_activate: "yields unregistered (\<lambda>_. True) (activate h)"
  unfolding activate_def console_error_def
  apply (intro yields_then_any yields_catch yields_modify unregistered_inner_activate)
  apply (simp_all add: unregistered_def)
  done

lemma unregistered_activated: "unregistered (activated h None st)"
proof -
  have "unregistered (startup None st)"
    by (simp add: unregistered_def startup_def)
  with unregistered_activate have "post unregistered (\<lambda>_. True) (activate h (startup None st))"
    by (rule yieldsD)
  then show ?thesis
    unfolding activated_def
    by (cases "activate h (startup None st)"; cases "fst (activate h (startup None st))") simp_all
qed

text \<open>
  Claim C4, as amended. When \<open>workspace.workspaceFolders\<close> is \<open>undefined\<close>, each of the three
  registration functions returns \<open>undefined\<close> and leaves the world as it is, and activation,
  on any host, resolves and leaves no task provider, tree view, tree data provider, hover
  provider, watcher or workspace-folder listener behind.
\<close>

theorem nothing_registered_without_workspace:
  assumes "workspaceFolders w = None"
  shows "registerAntTaskProvider h w = (Inr None, w)
     \<and> registerExplorer h w = (Inr None, w)
     \<and> registerHoverProvider h w = (Inr None, w)
     \<and> fst (activate h (startup None st)) = Inr ()
     \<and> taskProviders (activated h None st) = []
     \<and> treeViews (activated h None st) = []
     \<and> treeDataProvider (activated h None st) = None
     \<and> hoverProviders (activated h None st) = []
     \<and> watchers (activated h None st) = []
     \<and> workspaceFoldersListeners (activated h None st) = []"
  using assms unregistered_activated [of h st]
  by (simp add: registerAntTaskProvider_undefined registerExplorer_undefined
        registerHoverProvider_undefined activate_resolves unregistered_def)

theorem nothing_registered_without_workspace_witness:
  "workspaceFolders (startup None sample_settings) = None
   \<and> fst (registerExplorer quiet_host (startup None sample_settings)) = Inr None
   \<and> fst (activate quiet_host (startup None sample_settings)) = Inr ()
   \<and> watchers (activated quiet_host None sample_settings) = []
   \<and> hoverProviders (activated quiet_host None sample_settings) = []"
proof -
  have "workspaceFolders (startup None sample_settings) = None"
    by (simp add: startup_def)
  from this nothing_registered_without_workspace
              [OF this, of quiet_host sample_settings]
  show ?thesis
    by simp
qed

text \<open>
  An empty array of workspace folders is not \<open>undefined\<close>: the three guards let it pass, and
  everything is registered.
\<close>

theorem empty_folder_list_registers_counterexample:
  "workspaceFolders (startup (Some []) sample_settings) = Some []
   \<and> fst (registerExplorer quiet_host (startup (Some []) sample_settings))
       = Inr (Some TaskTreeDataProvider)
   \<and> map globPattern (watchers (activated quiet_host (Some []) sample_settings)) =
       [''**/[Bb]uild.xml'', ''**/package.json'', ''**/.vscode/tasks.json'']
   \<and> workspaceFoldersListeners (activated quiet_host (Some []) sample_settings) =
       [InvalidateScriptCaches]
   \<and> taskProviders (activated quiet_host (Some []) sample_settings) = [''ant'']
   \<and> treeViews (activated quiet_host (Some []) sample_settings) = [''taskView'']
   \<and> hoverProviders (activated quiet_host (Some []) sample_settings) = [npmSelector]"
proof -
  have "fst (registerExplorer quiet_host (startup (Some []) sample_settings))
      = Inr (Some TaskTreeDataProvider)"
    by (simp add: registerExplorer_def startup_def host_defs act_defs quiet_host_def never_def)
  then show ?thesis
    by (simp add: activated_with_folders [OF quiet_quiet_host]) (simp add: startup_def)
qed

section \<open>The output channel\<close>

text \<open>
  On any host, the channel is not shown during activation unless the setting says so.
\<close>

lemma silent_registerAntTaskProvider: "yields (silent st) (\<lambda>_. True) (registerAntTaskProvider h)"
proof -
  have "yields (silent st) (\<lambda>_. True) (\<lambda>w. registerAntTaskProvider h w)"
    unfolding registerAntTaskProvider_def host_defs
    apply (rule yields_folders)
     apply (simp add: yields_return)
    apply (intro yields_bind_any yields_then_any yields_call yields_modify)
                        apply (simp_all add: silent_def yields_return)
    done
  then show ?thesis
    by simp
qed

lemma silent_registerExplorer: "yields (silent st) (\<lambda>_. True) (registerExplorer h)"
proof -
  have "yields (silent st) (\<lambda>_. True) (\<lambda>w. registerExplorer h w)"
    unfolding registerExplorer_def host_defs
    apply (rule yields_folders)
     apply (simp add: yields_return)
    apply (intro yields_bind_any yields_then_any yields_call yields_modify)
                        apply (simp_all add: silent_def yields_return)
    done
  then show ?thesis
    by simp
qed

lemma silent_registerHoverProvider: "yields (silent st) (\<lambda>_. True) (registerHoverProvider h)"
proof -
  have "yields (silent st) (\<lambda>_. True) (\<lambda>w. registerHoverProvider h w)"
    unfolding registerHoverProvider_def host_defs
    apply (rule yields_folders)
     apply (simp add: yields_return)
    apply (intro yields_bind_any yields_then_any yields_call yields_modify)
                        apply (simp_all add: silent_def yields_return)
    done
  then show ?thesis
    by simp
qed

lemma silent_configureHttpRequest: "yields (silent st) (\<lambda>_. True) (configureHttpRequest h)"
  unfolding configureHttpRequest_def
  by (intro yields_bind_any yields_call) (simp_all add: silent_def)

lemma silent_tryInit: "yields (silent st) (\<lambda>_. True) (tryInit h)"
  unfolding tryInit_def host_defs
  apply (intro yields_bind_any yields_then_any yields_call yields_modify
      silent_registerAntTaskProvider silent_registerExplorer silent_registerHoverProvider
      silent_configureHttpRequest)
                      apply (simp_all add: silent_def)
  done

lemma silent_inner_activate:
  assumes "showOutput st \<noteq> Some True"
  shows "yields (silent st) (\<lambda>_. True) (inner_activate h)"
  unfolding inner_activate_def host_defs
  apply (rule yields_bind_any, rule yields_call, simp add: silent_def, simp add: silent_def)
  apply (rule yields_then_any, rule yields_modify, simp add: silent_def)
  apply (rule yields_then_any, rule yields_call, simp add: silent_def, simp add: silent_def)
  apply (rule yields_then_any, rule yields_modify, simp add: silent_def)
  apply (rule yields_bind [where R = "\<lambda>v. v = showOutput st"])
   apply (rule yields_call_result, simp add: silent_def, simp add: silent_def)
  apply (rule yields_then_any)
   apply (simp add: assms yields_return)
  apply (rule silent_tryInit)
  done

lemma silent_activate:
  assumes "showOutput st \<noteq> Some True"
  shows "yields (silent st) (\<lambda>_. True) (activate h)"
  unfolding activate_def console_error_def
  apply (intro yields_then_any yields_catch yields_modify silent_inner_activate [OF assms])
   apply (simp_all add: silent_def)
  done

lemma show_only_if_set:
  assumes "Show \<in> set (calls (activated h folders st))"
  shows "showOutput st = Some True"
proof (rule ccontr)
  assume n: "showOutput st \<noteq> Some True"
  have "silent st (startup folders st)"
    by (simp add: silent_def startup_def)
  with silent_activate [OF n] have "post (silent st) (\<lambda>_. True) (activate h (startup folders st))"
    by (rule yieldsD)
  then have "silent st (activated h folders st)"
    unfolding activated_def
    by (cases "activate h (startup folders st)"; cases "fst (activate h (startup folders st))")
       simp_all
  with assms show False
    by (simp add: silent_def)
qed

text \<open>
  Claim C8. On any host, the output channel is shown during activation only if the setting
  \<open>showOutput\<close> is \<open>true\<close>; on a host whose calls do not throw, activation reads the setting,
  and it shows the channel if and only if the setting is \<open>true\<close>.
\<close>

theorem showOutput_setting_decides_show:
  "(Show \<in> set (calls (activated h folders st)) \<longrightarrow> showOutput st = Some True)
   \<and> (quiet h \<longrightarrow>
        ConfigurationGet ''showOutput'' \<in> set (calls (activated h folders st))
        \<and> (Show \<in> set (calls (activated h folders st)) \<longleftrightarrow> showOutput st = Some True))"
proof -
  have "ConfigurationGet ''showOutput'' \<in> set (calls (activated h folders st))
      \<and> (Show \<in> set (calls (activated h folders st)) \<longleftrightarrow> showOutput st = Some True)"
    if q: "quiet h"
    by (cases folders)
       (simp_all add: activated_with_folders [OF q] activated_without_folders [OF q]
          channel_calls_def http_calls_def)
  then show ?thesis
    using show_only_if_set [of h folders st] by blast
qed

theorem showOutput_setting_decides_show_witness:
  "quiet quiet_host \<and> showOutput sample_settings = Some True
   \<and> Show \<in> set (calls (activated quiet_host None sample_settings))
   \<and> showOutput (sample_settings\<lparr>showOutput := Some False\<rparr>) \<noteq> Some True
   \<and> Show \<notin> set (calls (activated failing_host None (sample_settings\<lparr>showOutput := Some False\<rparr>)))"
  using showOutput_setting_decides_show [of quiet_host None sample_settings]
    showOutput_setting_decides_show
      [of failing_host None "sample_settings\<lparr>showOutput := Some False\<rparr>"]
  by (auto simp add: quiet_quiet_host sample_settings_def)

section \<open>The callbacks on a host whose calls do not throw\<close>

lemma invalidateScriptCaches_quiet:
  assumes "quiet h"
  shows "invalidateScriptCaches h w =
     (Inr (), w\<lparr>hoverScriptsCache := Map.empty, tasksCache := Map.empty,
                calls := calls w @ invalidation_calls w\<rparr>)"
  using assms
  by (cases "treeDataProvider w")
     (simp_all add: invalidateScriptCaches_def host_defs act_defs quiet_def invalidation_calls_def)

lemma configureHttpRequest_quiet:
  assumes "quiet h"
  shows "configureHttpRequest h w =
     (Inr (), w\<lparr>httpRequest := Some (proxy_or_default (settings w), proxyStrictSSL_or_default (settings w)),
                calls := calls w @ http_calls (settings w)\<rparr>)"
  using assms by (simp add: configureHttpRequest_def act_defs quiet_def trace_defs)

lemma onConfigurationChanged_quiet:
  assumes "quiet h"
  shows "onConfigurationChanged h affects w =
     (Inr (),
      w\<lparr>httpRequest := Some (proxy_or_default (settings w), proxyStrictSSL_or_default (settings w)),
        tasksCache := (if affects ''taskView.exclude'' then Map.empty else tasksCache w),
        calls := calls w @ http_calls (settings w) @ [AffectsConfiguration ''taskView.exclude'']
           @ (if affects ''taskView.exclude''
              then InvalidateTasksCache # (if treeDataProvider w = None then [] else [Refresh])
              else [])\<rparr>)"
  using assms
  by (cases "treeDataProvider w")
     (simp_all add: onConfigurationChanged_def configureHttpRequest_quiet host_defs act_defs quiet_def)

lemma onTextDocumentChanged_quiet:
  assumes "quiet h"
  shows "onTextDocumentChanged h d w =
     (Inr (), w\<lparr>hoverScriptsCache := (hoverScriptsCache w)(d := None),
                calls := calls w @ [InvalidateHoverScriptsCache (Some d)]\<rparr>)"
  using assms by (simp add: onTextDocumentChanged_def host_defs act_defs quiet_def)

lemma show_logOutputChannel_quiet:
  assumes "quiet h"
  shows "snd (show_logOutputChannel h w) =
     (case logOutputChannel w of None \<Rightarrow> w | Some ch \<Rightarrow> w\<lparr>calls := calls w @ [Show]\<rparr>)"
  using assms
  by (simp add: show_logOutputChannel_def act_throw_def call_def quiet_def split: option.splits)

lemma runSelectedScript_quiet:
  assumes "quiet h"
  shows "snd (call h RunScript (\<lambda>w. ((), w)) w) = w\<lparr>calls := calls w @ [RunScript]\<rparr>"
  using assms by (simp add: call_def quiet_def)

lemmas invoke_quiet = invalidateScriptCaches_quiet onConfigurationChanged_quiet
  onTextDocumentChanged_quiet show_logOutputChannel_quiet runSelectedScript_quiet

lemma invalidation_calls_cong:
  "treeDataProvider w' = treeDataProvider w \<Longrightarrow> invalidation_calls w' = invalidation_calls w"
  by (simp add: invalidation_calls_def)

lemma fire_invalidateScriptCaches:
  assumes "quiet h" and "set cbs \<subseteq> {InvalidateScriptCaches}"
  shows "treeDataProvider (fire h cbs ev w) = treeDataProvider w
     \<and> calls (fire h cbs ev w) = calls w @ concat (replicate (length cbs) (invalidation_calls w))
     \<and> (cbs \<noteq> [] \<longrightarrow> tasksCache (fire h cbs ev w) = Map.empty
           \<and> hoverScriptsCache (fire h cbs ev w) = Map.empty)"
  using assms(2)
proof (induction cbs arbitrary: w)
  case Nil
  show ?case by simp
next
  case (Cons cb cbs)
  then have cb: "cb = InvalidateScriptCaches" and rest: "set cbs \<subseteq> {InvalidateScriptCaches}"
    by simp_all
  define w1 where "w1 = snd (invoke h cb ev w)"
  have w1: "treeDataProvider w1 = treeDataProvider w"
    "calls w1 = calls w @ invalidation_calls w"
    "tasksCache w1 = Map.empty" "hoverScriptsCache w1 = Map.empty"
    by (simp_all add: w1_def cb invalidateScriptCaches_quiet [OF assms(1)])
  have step: "fire h (cb # cbs) ev w = fire h cbs ev w1"
    by (simp add: w1_def)
  note IH = Cons.IH [OF rest, of w1]
  show ?case
  proof (cases "cbs = []")
    case True
    with w1 show ?thesis
      unfolding step by simp
  next
    case False
    with IH w1 show ?thesis
      unfolding step by (simp add: invalidation_calls_cong [OF w1(1)])
  qed
qed

subsection \<open>The host's part of an event\<close>

lemma host_update_fields:
  "calls (host_update ev w) = calls w"
  "treeDataProvider (host_update ev w) = treeDataProvider w"
  "tasksCache (host_update ev w) = tasksCache w"
  "hoverScriptsCache (host_update ev w) = hoverScriptsCache w"
  "registrations (host_update ev w) = registrations w"
  by (cases ev; simp add: registrations_def)+

lemma invalidation_calls_host_update:
  "invalidation_calls (host_update ev w) = invalidation_calls w"
  by (simp add: invalidation_calls_def host_update_fields)

lemma listeners_registrations:
  "registrations w' = registrations w \<Longrightarrow> listeners h w' ev = listeners h w ev"
  by (cases ev) (simp_all add: registrations_def)

lemma listeners_host_update: "listeners h (host_update ev w) ev = listeners h w ev"
  by (rule listeners_registrations) (rule host_update_fields)

lemma listeners_invalidating:
  assumes "quiet h" and "registrations w = registrations (activated h (Some fs) st)"
      and "invalidating h w ev"
  shows "set (listeners h w ev) \<subseteq> {InvalidateScriptCaches} \<and> listeners h w ev \<noteq> []"
  using assms(3)
  by (cases ev; simp add: registrations_with_folders [OF assms(1,2)] watched_def matching_def)
     blast+

lemma deliver_configuration:
  assumes "quiet h" and "registrations w = registrations (activated h folders st)"
  shows "deliver h (DidChangeConfiguration st' affects) w =
     snd (onConfigurationChanged h affects (w\<lparr>settings := st'\<rparr>))"
proof -
  have "configurationListeners (w\<lparr>settings := st'\<rparr>) = [ConfigurationChanged]"
    using registrations_listeners(1) [OF assms] by simp
  then show ?thesis
    by (simp add: deliver_def)
qed

lemma deliver_text_document:
  assumes "quiet h" and "registrations w = registrations (activated h folders st)"
  shows "deliver h (DidChangeTextDocument d) w = snd (onTextDocumentChanged h d w)"
  using registrations_listeners(2) [OF assms] by (simp add: deliver_def)

section \<open>Events that invalidate both caches\<close>

text \<open>
  Claim C1. On a host whose calls do not throw, in every world that has the registrations
  of an activation with workspace folders, the listeners of a create, change or delete
  event under a watched path, and of a change of the workspace folders, are runs of
  \<open>invalidateScriptCaches\<close>, and there is at least one: afterwards both caches are empty,
  and each run has called the two invalidations and, when a tree data provider exists,
  its refresh.
\<close>

theorem invalidating_event_clears_caches_and_refreshes:
  assumes "quiet h"
      and "registrations w = registrations (activated h (Some fs) st)"
      and "invalidating h w ev"
  shows "hoverScriptsCache (deliver h ev w) = Map.empty
     \<and> tasksCache (deliver h ev w) = Map.empty
     \<and> listeners h w ev \<noteq> []
     \<and> new_calls w (deliver h ev w) =
         concat (replicate (length (listeners h w ev)) (invalidation_calls w))
     \<and> (treeDataProvider w \<noteq> None \<longrightarrow> Refresh \<in> set (new_calls w (deliver h ev w)))"
proof -
  note ls = listeners_invalidating [OF assms]
  note fired = fire_invalidateScriptCaches [OF assms(1) conjunct1 [OF ls], of ev "host_update ev w"]
  have d: "deliver h ev w = fire h (listeners h w ev) ev (host_update ev w)"
    by (simp add: deliver_def listeners_host_update)
  have new: "new_calls w (deliver h ev w) =
      concat (replicate (length (listeners h w ev)) (invalidation_calls w))"
    unfolding d using fired
    by (intro new_calls_append) (simp add: host_update_fields invalidation_calls_host_update)
  obtain cb cbs where "listeners h w ev = cb # cbs"
    using ls by (cases "listeners h w ev") simp_all
  then have "treeDataProvider w \<noteq> None \<longrightarrow> Refresh \<in> set (new_calls w (deliver h ev w))"
    unfolding new by (simp add: invalidation_calls_def)
  with fired ls new show ?thesis
    unfolding d by simp
qed

theorem invalidating_event_clears_caches_and_refreshes_witness:
  "quiet quiet_host
   \<and> registrations sample_world = registrations (activated quiet_host (Some [''/ws'']) sample_settings)
   \<and> invalidating quiet_host sample_world (DidChange ''/ws/package.json'')
   \<and> tasksCache sample_world (''/ws'', Npm) = Some [build_task]
   \<and> tasksCache (deliver quiet_host (DidChange ''/ws/package.json'') sample_world) = Map.empty
   \<and> hoverScriptsCache (deliver quiet_host (DidChange ''/ws/package.json'') sample_world) = Map.empty
   \<and> new_calls sample_world (deliver quiet_host (DidChange ''/ws/package.json'') sample_world) =
       [InvalidateHoverScriptsCache None, InvalidateTasksCache, Refresh]"
proof -
  have w: "watched quiet_host sample_world ''/ws/package.json''"
    by (simp add: watched_def sample_world_fields activated_with_folders [OF quiet_quiet_host]
          sample_glob_package_json)
  then have i: "invalidating quiet_host sample_world (DidChange ''/ws/package.json'')"
    by simp
  from invalidating_event_clears_caches_and_refreshes
         [OF quiet_quiet_host sample_world_registrations i]
  show ?thesis
    by (simp add: quiet_quiet_host sample_world_registrations w sample_world_fields
          invalidation_calls_def matching_def activated_with_folders [OF quiet_quiet_host]
          sample_glob_package_json)
qed

section \<open>Configuration changes\<close>

text \<open>
  Claim C3, as amended. On a host whose calls do not throw, every configuration change begins
  with reading the two proxy settings again, from the changed settings, and applying them
  again; the tasks cache is invalidated exactly when the change affects \<open>taskView.exclude\<close>,
  and the tree view is refreshed exactly when the change affects \<open>taskView.exclude\<close> and a
  tree data provider exists.
\<close>

theorem configuration_change_reconfigures_and_invalidates:
  assumes "quiet h" and "registrations w = registrations (activated h folders st)"
  shows "httpRequest (deliver h (DidChangeConfiguration st' affects) w) =
       Some (proxy_or_default st', proxyStrictSSL_or_default st')
     \<and> take 4 (new_calls w (deliver h (DidChangeConfiguration st' affects) w)) =
         [GetConfiguration ''http'', SettingGet ''proxy'', SettingGet ''proxyStrictSSL'',
          HttpRequestConfigure (proxy_or_default st') (proxyStrictSSL_or_default st')]
     \<and> (InvalidateTasksCache \<in> set (new_calls w (deliver h (DidChangeConfiguration st' affects) w))
          \<longleftrightarrow> affects ''taskView.exclude'')
     \<and> (Refresh \<in> set (new_calls w (deliver h (DidChangeConfiguration st' affects) w))
          \<longleftrightarrow> affects ''taskView.exclude'' \<and> treeDataProvider w \<noteq> None)
     \<and> tasksCache (deliver h (DidChangeConfiguration st' affects) w) =
         (if affects ''taskView.exclude'' then Map.empty else tasksCache w)"
proof -
  let ?w' = "deliver h (DidChangeConfiguration st' affects) w"
  have new: "new_calls w ?w' =
      http_calls st' @ [AffectsConfiguration ''taskView.exclude'']
      @ (if affects ''taskView.exclude''
         then InvalidateTasksCache # (if treeDataProvider w = None then [] else [Refresh])
         else [])"
    by (rule new_calls_append)
       (simp add: deliver_configuration [OF assms] onConfigurationChanged_quiet [OF assms(1)])
  have "httpRequest ?w' = Some (proxy_or_default st', proxyStrictSSL_or_default st')"
    and "tasksCache ?w' = (if affects ''taskView.exclude'' then Map.empty else tasksCache w)"
    by (simp_all add: deliver_configuration [OF assms] onConfigurationChanged_quiet [OF assms(1)])
  then show ?thesis
    unfolding new by (simp add: http_calls_def)
qed

theorem configuration_change_reconfigures_and_invalidates_witness:
  "quiet quiet_host
   \<and> registrations sample_world = registrations (activated quiet_host (Some [''/ws'']) sample_settings)
   \<and> tasksCache sample_world (''/ws'', Npm) = Some [build_task]
   \<and> tasksCache (deliver quiet_host (DidChangeConfiguration sample_settings affects_all) sample_world) =
       Map.empty
   \<and> Refresh \<in> set (new_calls sample_world
         (deliver quiet_host (DidChangeConfiguration sample_settings affects_all) sample_world))
   \<and> httpRequest (deliver quiet_host (DidChangeConfiguration sample_settings affects_all) sample_world) =
       Some ([], True)"
  using configuration_change_reconfigures_and_invalidates
          [OF quiet_quiet_host sample_world_registrations, of sample_settings affects_all]
  by (simp add: quiet_quiet_host sample_world_registrations sample_world_fields affects_all_def
        proxy_or_default_def proxyStrictSSL_or_default_def sample_settings_def)

text \<open>
  After an activation without workspace folders there is no tree data provider: a change
  that affects \<open>taskView.exclude\<close> invalidates the tasks cache and refreshes nothing.
\<close>

theorem configuration_change_without_tree_counterexample:
  "\<not> ((InvalidateTasksCache \<in> set (new_calls (activated quiet_host None sample_settings)
            (deliver quiet_host (DidChangeConfiguration sample_settings affects_all)
               (activated quiet_host None sample_settings)))
        \<and> Refresh \<in> set (new_calls (activated quiet_host None sample_settings)
            (deliver quiet_host (DidChangeConfiguration sample_settings affects_all)
               (activated quiet_host None sample_settings))))
       \<longleftrightarrow> affects_all ''taskView.exclude'')"
proof -
  have r: "registrations (activated quiet_host None sample_settings) =
      registrations (activated quiet_host None sample_settings)"
    by simp
  have "new_calls (activated quiet_host None sample_settings)
      (deliver quiet_host (DidChangeConfiguration sample_settings affects_all)
         (activated quiet_host None sample_settings)) =
      http_calls sample_settings @ [AffectsConfiguration ''taskView.exclude'', InvalidateTasksCache]"
    by (rule new_calls_append)
       (simp add: deliver_configuration [OF quiet_quiet_host r]
          onConfigurationChanged_quiet [OF quiet_quiet_host] affects_all_def
          activated_without_folders [OF quiet_quiet_host])
  then show ?thesis
    by (simp add: affects_all_def http_calls_def)
qed

section \<open>Changes of a text document\<close>

text \<open>
  On any host, activation registers no listener of text-document changes but its own.
\<close>

lemma heard_registerAntTaskProvider: "yields heard (\<lambda>_. True) (registerAntTaskProvider h)"
proof -
  have "yields heard (\<lambda>_. True) (\<lambda>w. registerAntTaskProvider h w)"
    unfolding registerAntTaskProvider_def host_defs
    apply (rule yields_folders)
     apply (simp add: yields_return)
    apply (intro yields_bind_any yields_then_any yields_call yields_modify)
                        apply (simp_all add: heard_def yields_return)
    done
  then show ?thesis
    by simp
qed

lemma heard_registerExplorer: "yields heard (\<lambda>_. True) (registerExplorer h)"
proof -
  have "yields heard (\<lambda>_. True) (\<lambda>w. registerExplorer h w)"
    unfolding registerExplorer_def host_defs
    apply (rule yields_folders)
     apply (simp add: yields_return)
    apply (intro yields_bind_any yields_then_any yields_call yields_modify)
                        apply (simp_all add: heard_def yields_return)
    done
  then show ?thesis
    by simp
qed

lemma heard_registerHoverProvider: "yields heard (\<lambda>_. True) (registerHoverProvider h)"
proof -
  have "yields heard (\<lambda>_. True) (\<lambda>w. registerHoverProvider h w)"
    unfolding registerHoverProvider_def host_defs
    apply (rule yields_folders)
     apply (simp add: yields_return)
    apply (intro yields_bind_any yields_then_any yields_call yields_modify)
                        apply (simp_all add: heard_def yields_return)
    done
  then show ?thesis
    by simp
qed

lemma heard_configureHttpRequest: "yields heard (\<lambda>_. True) (configureHttpRequest h)"
  unfolding configureHttpRequest_def
  by (intro yields_bind_any yields_call) (simp_all add: heard_def)

lemma heard_tryInit: "yields heard (\<lambda>_. True) (tryInit h)"
  unfolding tryInit_def host_defs
  apply (intro yields_bind_any yields_then_any yields_call yields_modify
      heard_registerAntTaskProvider heard_registerExplorer heard_registerHoverProvider
      heard_configureHttpRequest)
                      apply (simp_all add: heard_def)
  done

lemma heard_show: "yields heard (\<lambda>_. True) (show_logOutputChannel h)"
  by (rule yields_show) (simp add: heard_def)

lemma heard_inner_activate: "yields heard (\<lambda>_. True) (inner_activate h)"
  unfolding inner_activate_def host_defs
  apply (intro yields_bind_any yields_then_any yields_call yields_modify heard_tryInit)
          apply (simp_all add: heard_def heard_show yields_return)
  done

lemma heard_activate: "yields heard (\<lambda>_. True) (activate h)"
  unfolding activate_def console_error_def
  apply (intro yields_then_any yields_catch yields_modify heard_inner_activate)
   apply (simp_all add: heard_def)
  done

lemma heard_activated: "heard (activated h folders st)"
proof -
  have "heard (startup folders st)"
    by (simp add: heard_def startup_def)
  with heard_activate have "post heard (\<lambda>_. True) (activate h (startup folders st))"
    by (rule yieldsD)
  then show ?thesis
    unfolding activated_def
    by (cases "activate h (startup folders st)"; cases "fst (activate h (startup folders st))")
       simp_all
qed

lemma onTextDocumentChanged_any:
  "tasksCache (snd (onTextDocumentChanged h d w)) = tasksCache w"
  "d' \<noteq> d \<Longrightarrow> hoverScriptsCache (snd (onTextDocumentChanged h d w)) d' = hoverScriptsCache w d'"
  "calls (snd (onTextDocumentChanged h d w)) = calls w @ [InvalidateHoverScriptsCache (Some d)]"
  by (cases "throws h w (InvalidateHoverScriptsCache (Some d))";
      simp add: onTextDocumentChanged_def invalidateHoverScriptsCache_def call_def Let_def)+

lemma fire_text_document:
  assumes "set cbs \<subseteq> {TextDocumentChanged}"
  shows "tasksCache (fire h cbs (DidChangeTextDocument d) w) = tasksCache w
     \<and> (\<forall>d'. d' \<noteq> d \<longrightarrow>
           hoverScriptsCache (fire h cbs (DidChangeTextDocument d) w) d' = hoverScriptsCache w d')
     \<and> calls (fire h cbs (DidChangeTextDocument d) w) =
         calls w @ replicate (length cbs) (InvalidateHoverScriptsCache (Some d))"
  using assms
proof (induction cbs arbitrary: w)
  case Nil
  show ?case by simp
next
  case (Cons cb cbs)
  then have cb: "cb = TextDocumentChanged" and rest: "set cbs \<subseteq> {TextDocumentChanged}"
    by simp_all
  from Cons.IH [OF rest, of "snd (onTextDocumentChanged h d w)"]
  show ?case
    by (simp add: cb onTextDocumentChanged_any replicate_append_same [symmetric]
          del: replicate.simps)
       (simp add: replicate_append_same)
qed

text \<open>
  Claim C9. On any host, in every world that has the registrations of an activation, a
  change of a text document leaves the tasks cache and the hover-scripts entries of the
  other documents as they were, and calls nothing but the invalidation of the hover-scripts
  cache for the changed document: the tree view is not refreshed. On a host whose calls do
  not throw that call is made once, and the entry of the changed document is gone.
\<close>

theorem text_document_change_touches_one_hover_entry:
  assumes "registrations w = registrations (activated h folders st)"
  shows "tasksCache (deliver h (DidChangeTextDocument d) w) = tasksCache w
     \<and> (\<forall>d'. d' \<noteq> d \<longrightarrow>
           hoverScriptsCache (deliver h (DidChangeTextDocument d) w) d' = hoverScriptsCache w d')
     \<and> set (new_calls w (deliver h (DidChangeTextDocument d) w))
         \<subseteq> {InvalidateHoverScriptsCache (Some d)}
     \<and> Refresh \<notin> set (new_calls w (deliver h (DidChangeTextDocument d) w))
     \<and> (quiet h \<longrightarrow>
           new_calls w (deliver h (DidChangeTextDocument d) w) = [InvalidateHoverScriptsCache (Some d)]
           \<and> hoverScriptsCache (deliver h (DidChangeTextDocument d) w) d = None)"
proof -
  let ?w' = "deliver h (DidChangeTextDocument d) w"
  have l: "set (textDocumentListeners w) \<subseteq> {TextDocumentChanged}"
    using assms heard_activated [of h folders st] by (simp add: registrations_def heard_def)
  note fired = fire_text_document [OF l, of h d w]
  have new: "new_calls w ?w' =
      replicate (length (textDocumentListeners w)) (InvalidateHoverScriptsCache (Some d))"
    by (rule new_calls_append) (simp add: deliver_def fired)
  have frame: "tasksCache ?w' = tasksCache w"
    "\<forall>d'. d' \<noteq> d \<longrightarrow> hoverScriptsCache ?w' d' = hoverScriptsCache w d'"
    using fired by (simp_all add: deliver_def)
  have "new_calls w ?w' = [InvalidateHoverScriptsCache (Some d)]
      \<and> hoverScriptsCache ?w' d = None" if "quiet h"
  proof -
    have "new_calls w ?w' = [InvalidateHoverScriptsCache (Some d)]"
      by (rule new_calls_append)
         (simp add: deliver_text_document [OF that assms] onTextDocumentChanged_quiet [OF that])
    moreover have "hoverScriptsCache ?w' d = None"
      by (simp add: deliver_text_document [OF that assms] onTextDocumentChanged_quiet [OF that])
    ultimately show ?thesis ..
  qed
  with frame show ?thesis
    unfolding new by auto
qed

theorem text_document_change_touches_one_hover_entry_witness:
  "quiet quiet_host
   \<and> registrations sample_world = registrations (activated quiet_host (Some [''/ws'']) sample_settings)
   \<and> hoverScriptsCache sample_world sample_document = Some [build_task]
   \<and> hoverScriptsCache (deliver quiet_host (DidChangeTextDocument sample_document) sample_world)
        sample_document = None
   \<and> tasksCache (deliver quiet_host (DidChangeTextDocument sample_document) sample_world)
        (''/ws'', Npm) = Some [build_task]
   \<and> new_calls sample_world (deliver quiet_host (DidChangeTextDocument sample_document) sample_world) =
       [InvalidateHoverScriptsCache (Some sample_document)]"
  using text_document_change_touches_one_hover_entry
          [OF sample_world_registrations, of sample_document]
  by (simp add: quiet_quiet_host sample_world_registrations sample_world_fields)

section \<open>What an event can do to the caches\<close>

text \<open>
  A callback leaves an entry of a cache as it is or removes it: no event populates a cache.
\<close>

lemma invoke_registrations:
  assumes "quiet h"
  shows "registrations (snd (invoke h cb ev w)) = registrations w"
  by (cases cb; cases ev)
     (simp_all add: invoke_quiet [OF assms] registrations_def act_return_def split: option.splits)

lemma invoke_settings:
  assumes "quiet h"
  shows "settings (snd (invoke h cb ev w)) = settings w
     \<and> workspaceFolders (snd (invoke h cb ev w)) = workspaceFolders w
     \<and> parsed (snd (invoke h cb ev w)) = parsed w"
  by (cases cb; cases ev)
     (simp_all add: invoke_quiet [OF assms] act_return_def split: option.splits)

lemma invoke_tasksCache:
  assumes "quiet h"
  shows "tasksCache (snd (invoke h cb ev w)) = tasksCache w
     \<or> tasksCache (snd (invoke h cb ev w)) = Map.empty"
  by (cases cb; cases ev)
     (simp_all add: invoke_quiet [OF assms] act_return_def split: option.splits)

lemma invoke_hoverScriptsCache:
  assumes "quiet h"
  shows "hoverScriptsCache (snd (invoke h cb ev w)) d = hoverScriptsCache w d
     \<or> hoverScriptsCache (snd (invoke h cb ev w)) d = None"
  by (cases cb; cases ev)
     (simp_all add: invoke_quiet [OF assms] act_return_def split: option.splits)

lemma fire_registrations:
  assumes "quiet h"
  shows "registrations (fire h cbs ev w) = registrations w"
  by (induction cbs arbitrary: w) (simp_all add: invoke_registrations [OF assms])

lemma fire_settings:
  assumes "quiet h"
  shows "settings (fire h cbs ev w) = settings w
     \<and> workspaceFolders (fire h cbs ev w) = workspaceFolders w
     \<and> parsed (fire h cbs ev w) = parsed w"
  by (induction cbs arbitrary: w) (simp_all add: invoke_settings [OF assms])

lemma fire_tasksCache:
  assumes "quiet h"
  shows "tasksCache (fire h cbs ev w) = tasksCache w \<or> tasksCache (fire h cbs ev w) = Map.empty"
proof (induction cbs arbitrary: w)
  case Nil
  show ?case by simp
next
  case (Cons cb cbs)
  from Cons.IH [of "snd (invoke h cb ev w)"] invoke_tasksCache [OF assms, of cb ev w]
  show ?case by auto
qed

lemma fire_hoverScriptsCache:
  assumes "quiet h"
  shows "hoverScriptsCache (fire h cbs ev w) d = hoverScriptsCache w d
     \<or> hoverScriptsCache (fire h cbs ev w) d = None"
proof (induction cbs arbitrary: w)
  case Nil
  show ?case by simp
next
  case (Cons cb cbs)
  from Cons.IH [of "snd (invoke h cb ev w)"] invoke_hoverScriptsCache [OF assms, of cb ev w d]
  show ?case by auto
qed

lemma deliver_registrations:
  assumes "quiet h"
  shows "registrations (deliver h ev w) = registrations w"
  by (simp add: deliver_def fire_registrations [OF assms] host_update_fields)

lemma deliver_tasksCache:
  assumes "quiet h"
  shows "tasksCache (deliver h ev w) = tasksCache w \<or> tasksCache (deliver h ev w) = Map.empty"
  using fire_tasksCache [OF assms, of "listeners h (host_update ev w) ev" ev "host_update ev w"]
  by (simp add: deliver_def host_update_fields)

lemma deliver_hoverScriptsCache:
  assumes "quiet h"
  shows "hoverScriptsCache (deliver h ev w) d = hoverScriptsCache w d
     \<or> hoverScriptsCache (deliver h ev w) d = None"
  using fire_hoverScriptsCache [OF assms, of "listeners h (host_update ev w) ev" ev "host_update ev w" d]
  by (simp add: deliver_def host_update_fields)

lemma deliver_settings:
  assumes "quiet h"
  shows "settings (deliver h ev w) = settings (host_update ev w)"
    and "workspaceFolders (deliver h ev w) = workspaceFolders (host_update ev w)"
    and "parsed (deliver h ev w) = parsed w"
proof -
  have "parsed (host_update ev w) = parsed w"
    by (cases ev) simp_all
  then show "settings (deliver h ev w) = settings (host_update ev w)"
    and "workspaceFolders (deliver h ev w) = workspaceFolders (host_update ev w)"
    and "parsed (deliver h ev w) = parsed w"
    by (simp_all add: deliver_def fire_settings [OF assms])
qed

lemma run_keeps_invalid:
  assumes "quiet h"
  shows "tasksCache w scope = None \<Longrightarrow> tasksCache (run h evs w) scope = None"
    and "hoverScriptsCache w d = None \<Longrightarrow> hoverScriptsCache (run h evs w) d = None"
proof -
  show "tasksCache w scope = None \<Longrightarrow> tasksCache (run h evs w) scope = None"
  proof (induction evs arbitrary: w)
    case Nil
    then show ?case by simp
  next
    case (Cons ev evs)
    from deliver_tasksCache [OF assms, of ev w] Cons.prems
    have "tasksCache (deliver h ev w) scope = None"
      by auto
    then show ?case
      by (simp add: Cons.IH)
  qed
  show "hoverScriptsCache w d = None \<Longrightarrow> hoverScriptsCache (run h evs w) d = None"
  proof (induction evs arbitrary: w)
    case Nil
    then show ?case by simp
  next
    case (Cons ev evs)
    from deliver_hoverScriptsCache [OF assms, of ev w d] Cons.prems
    have "hoverScriptsCache (deliver h ev w) d = None"
      by auto
    then show ?case
      by (simp add: Cons.IH)
  qed
qed

lemma getTasks_absent:
  assumes "tasksCache w scope = None"
  shows "fst (getTasks h discover scope w) =
       filter (\<lambda>t. \<not> excluded h (exclude (settings w)) (filePath t)) (discover scope)"
    and "parsed (snd (getTasks h discover scope w)) = parsed w @ [scope]"
    and "tasksCache (snd (getTasks h discover scope w)) scope =
       Some (filter (\<lambda>t. \<not> excluded h (exclude (settings w)) (filePath t)) (discover scope))"
  using assms by (simp_all add: getTasks_def Let_def)

lemma deliver_invalidating:
  assumes "quiet h"
      and "registrations w = registrations (activated h (Some fs) st)"
      and "invalidating h w ev"
  shows "tasksCache (deliver h ev w) = Map.empty" and "hoverScriptsCache (deliver h ev w) = Map.empty"
proof -
  note ls = listeners_invalidating [OF assms]
  from fire_invalidateScriptCaches [OF assms(1) conjunct1 [OF ls], of ev "host_update ev w"] ls
  show "tasksCache (deliver h ev w) = Map.empty"
    and "hoverScriptsCache (deliver h ev w) = Map.empty"
    by (simp_all add: deliver_def listeners_host_update)
qed

text \<open>
  Claim C7. On a host whose calls do not throw, after an invalidating event, and
  whatever events follow it, neither cache has an entry for any scope; a query of the
  tasks cache for a scope then runs the parser and returns what the parser finds now,
  whatever the entry of the scope was before the event.
\<close>

theorem invalidated_scope_is_parsed_again:
  assumes "quiet h"
      and "registrations w = registrations (activated h (Some fs) st)"
      and "invalidating h w ev"
  shows "tasksCache (run h evs (deliver h ev w)) scope = None
     \<and> hoverScriptsCache (run h evs (deliver h ev w)) d = None
     \<and> fst (getTasks h discover scope (run h evs (deliver h ev w))) =
         filter (\<lambda>t. \<not> excluded h (exclude (settings (run h evs (deliver h ev w)))) (filePath t))
           (discover scope)
     \<and> parsed (snd (getTasks h discover scope (run h evs (deliver h ev w)))) =
         parsed (run h evs (deliver h ev w)) @ [scope]"
proof -
  have "tasksCache (deliver h ev w) scope = None" and "hoverScriptsCache (deliver h ev w) d = None"
    by (simp_all add: deliver_invalidating [OF assms])
  then have "tasksCache (run h evs (deliver h ev w)) scope = None"
    and "hoverScriptsCache (run h evs (deliver h ev w)) d = None"
    by (simp_all add: run_keeps_invalid [OF assms(1)])
  then show ?thesis
    by (simp add: getTasks_absent)
qed

theorem invalidated_scope_is_parsed_again_witness:
  "quiet quiet_host
   \<and> registrations sample_world = registrations (activated quiet_host (Some [''/ws'']) sample_settings)
   \<and> invalidating quiet_host sample_world (DidChange ''/ws/package.json'')
   \<and> tasksCache sample_world (''/ws'', Npm) = Some [build_task]
   \<and> fst (getTasks quiet_host fresh_discover (''/ws'', Npm)
         (run quiet_host [DidChangeTextDocument sample_document]
            (deliver quiet_host (DidChange ''/ws/package.json'') sample_world))) = [test_task]
   \<and> parsed (snd (getTasks quiet_host fresh_discover (''/ws'', Npm)
         (run quiet_host [DidChangeTextDocument sample_document]
            (deliver quiet_host (DidChange ''/ws/package.json'') sample_world)))) = [(''/ws'', Npm)]"
proof -
  have w: "watched quiet_host sample_world ''/ws/package.json''"
    by (simp add: watched_def sample_world_fields activated_with_folders [OF quiet_quiet_host]
          sample_glob_package_json)
  then have i: "invalidating quiet_host sample_world (DidChange ''/ws/package.json'')"
    by simp
  have s: "settings (run quiet_host [DidChangeTextDocument sample_document]
            (deliver quiet_host (DidChange ''/ws/package.json'') sample_world)) = sample_settings"
    and p: "parsed (run quiet_host [DidChangeTextDocument sample_document]
            (deliver quiet_host (DidChange ''/ws/package.json'') sample_world)) = []"
    by (simp_all add: deliver_settings [OF quiet_quiet_host] sample_world_fields)
  from invalidated_scope_is_parsed_again
         [OF quiet_quiet_host sample_world_registrations i,
          of "[DidChangeTextDocument sample_document]" "(''/ws'', Npm)" sample_document
             fresh_discover]
  show ?thesis
    unfolding s p
    by (simp add: quiet_quiet_host sample_world_registrations w sample_world_fields
          fresh_discover_def sample_settings_def sample_excluded)
qed

section \<open>The tasks cache never holds a task of an excluded file\<close>

lemma cache_respects_exclusionI:
  assumes "\<And>scope ts t. tasksCache w scope = Some ts \<Longrightarrow> t \<in> set ts
     \<Longrightarrow> \<not> excluded h (exclude (settings w)) (filePath t)"
  shows "cache_respects_exclusion h w"
  using assms unfolding cache_respects_exclusion_def by blast

lemma cache_respects_exclusionD:
  assumes "cache_respects_exclusion h w" and "tasksCache w scope = Some ts" and "t \<in> set ts"
  shows "\<not> excluded h (exclude (settings w)) (filePath t)"
  using assms unfolding cache_respects_exclusion_def by blast

lemma cache_respects_exclusion_empty:
  "tasksCache w = Map.empty \<Longrightarrow> cache_respects_exclusion h w"
  by (simp add: cache_respects_exclusion_def)

lemma cache_respects_exclusion_cong:
  assumes "cache_respects_exclusion h w"
      and "tasksCache w' = tasksCache w \<or> tasksCache w' = Map.empty"
      and "exclude (settings w') = exclude (settings w)"
  shows "cache_respects_exclusion h w'"
  using assms unfolding cache_respects_exclusion_def by auto

lemma getTasks_fields:
  "registrations (snd (getTasks h discover scope w)) = registrations w"
  "settings (snd (getTasks h discover scope w)) = settings w"
  "workspaceFolders (snd (getTasks h discover scope w)) = workspaceFolders w"
  by (simp_all add: getTasks_def Let_def registrations_def split: option.splits)

lemma getTasks_respects:
  assumes "cache_respects_exclusion h w"
  shows "cache_respects_exclusion h (snd (getTasks h discover scope w))"
    and "\<forall>t \<in> set (fst (getTasks h discover scope w)).
           \<not> excluded h (exclude (settings w)) (filePath t)"
proof -
  show "cache_respects_exclusion h (snd (getTasks h discover scope w))"
  proof (cases "tasksCache w scope")
    case None
    show ?thesis
    proof (rule cache_respects_exclusionI)
      fix scope' ts t
      assume "tasksCache (snd (getTasks h discover scope w)) scope' = Some ts" and "t \<in> set ts"
      with None assms show
        "\<not> excluded h (exclude (settings (snd (getTasks h discover scope w)))) (filePath t)"
        by (cases "scope' = scope")
           (auto simp add: getTasks_def Let_def dest: cache_respects_exclusionD)
    qed
  next
    case (Some ts)
    with assms show ?thesis
      by (simp add: getTasks_def)
  qed
  show "\<forall>t \<in> set (fst (getTasks h discover scope w)).
           \<not> excluded h (exclude (settings w)) (filePath t)"
    using assms
    by (cases "tasksCache w scope")
       (auto simp add: getTasks_def Let_def dest: cache_respects_exclusionD)
qed

lemma listFolders_fields:
  "registrations (snd (listFolders h discover k fs w)) = registrations w
   \<and> settings (snd (listFolders h discover k fs w)) = settings w
   \<and> workspaceFolders (snd (listFolders h discover k fs w)) = workspaceFolders w"
proof (induction fs arbitrary: w)
  case Nil
  show ?case by simp
next
  case (Cons f fs)
  obtain ts w1 where g: "getTasks h discover (f, k) w = (ts, w1)"
    by (cases "getTasks h discover (f, k) w")
  obtain ts' w2 where l: "listFolders h discover k fs w1 = (ts', w2)"
    by (cases "listFolders h discover k fs w1")
  from getTasks_fields [of h discover "(f, k)" w] g
  have "registrations w1 = registrations w" and "settings w1 = settings w"
    and "workspaceFolders w1 = workspaceFolders w"
    by simp_all
  with Cons.IH [of w1] g l show ?case
    by simp
qed

lemma listFolders_respects:
  assumes "cache_respects_exclusion h w"
  shows "cache_respects_exclusion h (snd (listFolders h discover k fs w))
     \<and> (\<forall>t \<in> set (fst (listFolders h discover k fs w)).
           \<not> excluded h (exclude (settings w)) (filePath t))"
  using assms
proof (induction fs arbitrary: w)
  case Nil
  then show ?case by simp
next
  case (Cons f fs)
  obtain ts w1 where g: "getTasks h discover (f, k) w = (ts, w1)"
    by (cases "getTasks h discover (f, k) w")
  obtain ts' w2 where l: "listFolders h discover k fs w1 = (ts', w2)"
    by (cases "listFolders h discover k fs w1")
  from getTasks_respects [OF Cons.prems, of discover "(f, k)"] g
  have w1: "cache_respects_exclusion h w1"
    and ts: "\<forall>t \<in> set ts. \<not> excluded h (exclude (settings w)) (filePath t)"
    by simp_all
  have s: "settings w1 = settings w"
    using getTasks_fields(2) [of h discover "(f, k)" w] g by simp
  from Cons.IH [OF w1] l s
  have "cache_respects_exclusion h w2"
    and "\<forall>t \<in> set ts'. \<not> excluded h (exclude (settings w)) (filePath t)"
    by simp_all
  with ts g l show ?case
    by auto
qed

lemma deliver_respects:
  assumes "quiet h"
      and "registrations w = registrations (activated h folders st)"
      and "cache_respects_exclusion h w"
      and "reported w (Event ev)"
  shows "cache_respects_exclusion h (deliver h ev w)"
proof (cases "\<exists>st' affects. ev = DidChangeConfiguration st' affects
    \<and> exclude st' \<noteq> exclude (settings w)")
  case True
  then obtain st' affects where ev: "ev = DidChangeConfiguration st' affects"
    and "exclude st' \<noteq> exclude (settings w)"
    by blast
  with assms(4) have "affects ''taskView.exclude''"
    by simp
  then have "tasksCache (deliver h ev w) = Map.empty"
    unfolding ev
    by (simp add: deliver_configuration [OF assms(1,2)] onConfigurationChanged_quiet [OF assms(1)])
  then show ?thesis
    by (rule cache_respects_exclusion_empty)
next
  case False
  then have "exclude (settings (host_update ev w)) = exclude (settings w)"
    by (cases ev) auto
  then have "exclude (settings (deliver h ev w)) = exclude (settings w)"
    by (simp add: deliver_settings [OF assms(1)])
  with assms(3) deliver_tasksCache [OF assms(1), of ev w] show ?thesis
    by (rule cache_respects_exclusion_cong)
qed

lemma perform_invariant:
  assumes "quiet h"
      and "registrations w = registrations (activated h folders st)"
      and "cache_respects_exclusion h w"
      and "reported w a"
  shows "registrations (perform h a w) = registrations (activated h folders st)
     \<and> cache_respects_exclusion h (perform h a w)"
proof (cases a)
  case (Event ev)
  with assms show ?thesis
    by (simp add: deliver_registrations [OF assms(1)] deliver_respects [OF assms(1,2)])
next
  case (ListTasks k discover)
  with assms(2,3) show ?thesis
    by (simp add: listTasks_def listFolders_fields listFolders_respects)
qed

lemma perform_all_invariant:
  assumes "quiet h"
  shows "registrations w = registrations (activated h folders st)
     \<Longrightarrow> cache_respects_exclusion h w \<Longrightarrow> all_reported h as w
     \<Longrightarrow> cache_respects_exclusion h (perform_all h as w)"
proof (induction as arbitrary: w)
  case Nil
  then show ?case by simp
next
  case (Cons a as)
  from Cons.prems have "reported w a" and rest: "all_reported h as (perform h a w)"
    by simp_all
  from perform_invariant [OF assms Cons.prems(1,2) this(1)]
  have "registrations (perform h a w) = registrations (activated h folders st)"
    and "cache_respects_exclusion h (perform h a w)"
    by simp_all
  from Cons.IH [OF this rest] show ?case
    by simp
qed

lemma activated_respects:
  assumes "quiet h"
  shows "cache_respects_exclusion h (activated h folders st)"
  by (rule cache_respects_exclusion_empty, cases folders)
     (simp_all add: activated_with_folders [OF assms] activated_without_folders [OF assms])

text \<open>
  Claim C6. On a host whose calls do not throw and that reports each change of the
  exclusion globs as affecting \<open>taskView.exclude\<close>, after activation and any sequence of
  events and listings, the list operation returns no task whose defining file matches one
  of the exclusion globs configured at the time of the call.
\<close>

theorem listed_tasks_are_not_excluded:
  assumes "quiet h" and "all_reported h as (activated h folders st)"
  shows "\<forall>t \<in> set (fst (listTasks h discover k (perform_all h as (activated h folders st)))).
           \<forall>p \<in> set (exclude (settings (perform_all h as (activated h folders st)))).
             \<not> globMatch h p (filePath t)"
proof -
  have "cache_respects_exclusion h (perform_all h as (activated h folders st))"
    using assms(2) activated_respects [OF assms(1)]
    by (intro perform_all_invariant [OF assms(1)]) simp_all
  from listFolders_respects [OF this] show ?thesis
    by (simp add: listTasks_def excluded_def list_ex_iff)
qed

lemma sample_actions_run:
  "fst (listTasks quiet_host fresh_discover Npm
     (perform_all quiet_host sample_actions (activated quiet_host (Some [''/ws'']) open_settings)))
   = [test_task]"
  "exclude (settings
     (perform_all quiet_host sample_actions (activated quiet_host (Some [''/ws'']) open_settings)))
   = [''**/dist/**'']"
  "all_reported quiet_host sample_actions (activated quiet_host (Some [''/ws'']) open_settings)"
proof -
  let ?w0 = "activated quiet_host (Some [''/ws'']) open_settings"
  define w1 where "w1 = perform quiet_host (ListTasks Npm fresh_discover) ?w0"
  define w2 where "w2 = deliver quiet_host (DidChangeConfiguration sample_settings affects_all) w1"
  have r1: "registrations w1 = registrations ?w0"
    and f1: "workspaceFolders w1 = Some [''/ws'']"
    by (simp_all add: w1_def listTasks_def getTasks_fields
          activated_with_folders [OF quiet_quiet_host] split: prod.splits)
  have w2: "tasksCache w2 = Map.empty" "settings w2 = sample_settings"
    "workspaceFolders w2 = Some [''/ws'']"
    unfolding w2_def
    by (simp_all add: deliver_configuration [OF quiet_quiet_host r1]
          onConfigurationChanged_quiet [OF quiet_quiet_host] affects_all_def f1)
  have p: "perform_all quiet_host sample_actions ?w0 = w2"
    by (simp add: sample_actions_def w1_def w2_def)
  show "fst (listTasks quiet_host fresh_discover Npm (perform_all quiet_host sample_actions ?w0))
      = [test_task]"
    unfolding p
    by (simp add: listTasks_def w2 getTasks_def Let_def fresh_discover_def sample_settings_def
          sample_excluded split: prod.splits)
  show "exclude (settings (perform_all quiet_host sample_actions ?w0)) = [''**/dist/**'']"
    unfolding p by (simp add: w2 sample_settings_def)
  show "all_reported quiet_host sample_actions ?w0"
    by (simp add: sample_actions_def affects_all_def)
qed

theorem listed_tasks_are_not_excluded_witness:
  "quiet quiet_host
   \<and> all_reported quiet_host sample_actions (activated quiet_host (Some [''/ws'']) open_settings)
   \<and> dist_task \<in> set (fresh_discover (''/ws'', Npm))
   \<and> globMatch quiet_host ''**/dist/**'' (filePath dist_task)
   \<and> exclude (settings (perform_all quiet_host sample_actions
         (activated quiet_host (Some [''/ws'']) open_settings))) = [''**/dist/**'']
   \<and> fst (listTasks quiet_host fresh_discover Npm
         (perform_all quiet_host sample_actions
            (activated quiet_host (Some [''/ws'']) open_settings))) = [test_task]
   \<and> \<not> globMatch quiet_host ''**/dist/**'' (filePath test_task)"
  using listed_tasks_are_not_excluded
          [OF quiet_quiet_host sample_actions_run(3), of fresh_discover Npm]
  by (simp add: quiet_quiet_host sample_actions_run fresh_discover_def)
     (simp add: quiet_host_def sample_glob_def dist_task_def)

end
